theory Spec2Isabelle
  imports Complex_Main
begin

section \<open>Doubles, dense vectors, matrices and the graph\<close>

text \<open>
  An \<open>igraph_real_t\<close> is a C double. The values the greedy step computes with are
  modelled by \<open>double\<close>: a real number, one of the two infinities, or not-a-number.
  Finite values are not rounded. Addition, subtraction, multiplication, the logarithm
  and the comparison \<open><\<close> follow IEEE 754: the logarithm of zero is minus infinity and
  that of a negative number is not-a-number, opposite infinities add up to
  not-a-number, zero times an infinity is not-a-number, and every comparison with
  not-a-number is false. \<open>d_le\<close> is the comparison \<open><=\<close>; the program does not use it,
  the properties below are stated with it.
\<close>

datatype double = Fin real | PInf | MInf | NaN

fun d_neg :: "double \<Rightarrow> double" where
  "d_neg (Fin a) = Fin (- a)"
| "d_neg PInf = MInf"
| "d_neg MInf = PInf"
| "d_neg NaN = NaN"

fun d_add :: "double \<Rightarrow> double \<Rightarrow> double" where
  "d_add (Fin a) (Fin b) = Fin (a + b)"
| "d_add (Fin a) PInf = PInf"
| "d_add (Fin a) MInf = MInf"
| "d_add PInf (Fin b) = PInf"
| "d_add PInf PInf = PInf"
| "d_add PInf MInf = NaN"
| "d_add MInf (Fin b) = MInf"
| "d_add MInf PInf = NaN"
| "d_add MInf MInf = MInf"
| "d_add NaN y = NaN"
| "d_add x NaN = NaN"

definition d_sub :: "double \<Rightarrow> double \<Rightarrow> double" where
  "d_sub x y = d_add x (d_neg y)"

fun d_mul :: "double \<Rightarrow> double \<Rightarrow> double" where
  "d_mul (Fin a) (Fin b) = Fin (a * b)"
| "d_mul (Fin a) PInf = (if a = 0 then NaN else if 0 < a then PInf else MInf)"
| "d_mul (Fin a) MInf = (if a = 0 then NaN else if 0 < a then MInf else PInf)"
| "d_mul PInf (Fin b) = (if b = 0 then NaN else if 0 < b then PInf else MInf)"
| "d_mul MInf (Fin b) = (if b = 0 then NaN else if 0 < b then MInf else PInf)"
| "d_mul PInf PInf = PInf"
| "d_mul PInf MInf = MInf"
| "d_mul MInf PInf = MInf"
| "d_mul MInf MInf = PInf"
| "d_mul NaN y = NaN"
| "d_mul x NaN = NaN"

fun d_log :: "double \<Rightarrow> double" where
  "d_log (Fin a) = (if a < 0 then NaN else if a = 0 then MInf else Fin (ln a))"
| "d_log PInf = PInf"
| "d_log MInf = NaN"
| "d_log NaN = NaN"

fun d_less :: "double \<Rightarrow> double \<Rightarrow> bool" where
  "d_less (Fin a) (Fin b) = (a < b)"
| "d_less (Fin a) PInf = True"
| "d_less MInf (Fin b) = True"
| "d_less MInf PInf = True"
| "d_less x y = False"

fun d_le :: "double \<Rightarrow> double \<Rightarrow> bool" where
  "d_le (Fin a) (Fin b) = (a \<le> b)"
| "d_le (Fin a) PInf = True"
| "d_le MInf (Fin b) = True"
| "d_le MInf PInf = True"
| "d_le MInf MInf = True"
| "d_le PInf PInf = True"
| "d_le x y = False"

text \<open>
  The probabilities, the log-likelihood, the neighbour counts and the samples of the
  chain are finite and are kept as real numbers. Block ids and vertex ids are stored by
  the program in the same vectors of doubles; they only ever hold small non-negative
  integers and are modelled as natural numbers.
\<close>

type_synonym Vector = "real list"

type_synonym Matrix = "real list list"

text \<open>
  Modelled from the spec: the \<open>Graph\<close> class (igraph/cpp/graph.h) is not part of the
  sources at hand. The spec describes it as an immutable undirected graph "exposing
  vertex count and per-vertex neighbor iteration". It is represented by its adjacency
  lists: entry \<open>i\<close> is what \<open>graph->neighbors(i)\<close> returns.
\<close>

type_synonym Graph = "nat list list"

definition vcount :: "Graph \<Rightarrow> nat" where
  "vcount g = length g"

definition neighbors :: "Graph \<Rightarrow> nat \<Rightarrow> nat list" where
  "neighbors g i = g ! i"

text \<open>
  Modelled from the spec: \<open>Matrix::operator*(const Vector&)\<close> and
  \<open>Matrix::operator-=\<close> (igraph/cpp/matrix.h) are not part of the sources at hand.
  The spec lists them among the "basic dense-vector/dense-matrix arithmetic primitives
  (sum, scale, elementwise log, matrix-vector product)". A matrix is the list of its
  rows. The product is that of the BLAS routine \<open>dgemv\<close> behind \<open>igraph_blas.h\<close>, which
  vector.h includes: the result starts at zero, and for every entry of the vector that
  is not zero the entry times the matrix column is added to it. An entry of the vector
  that is zero contributes nothing, also where the matrix entry is infinite.
\<close>

definition inner_product :: "double list \<Rightarrow> Vector \<Rightarrow> double" where
  "inner_product row v =
     fold (\<lambda>p y. if snd p = 0 then y else d_add y (d_mul (Fin (snd p)) (fst p)))
       (zip row v) (Fin 0)"

definition mat_vec_mult :: "double list list \<Rightarrow> Vector \<Rightarrow> double list" where
  "mat_vec_mult M v = map (\<lambda>row. inner_product row v) M"

definition mat_sub :: "double list list \<Rightarrow> double list list \<Rightarrow> double list list" where
  "mat_sub A B = map2 (map2 d_sub) A B"

text \<open>
  \<open>std::transform(first, last, out, f)\<close> over all entries of a matrix.
\<close>

definition transform :: "(double \<Rightarrow> double) \<Rightarrow> double list list \<Rightarrow> double list list" where
  "transform f M = map (map f) M"

text \<open>
  \<open>std::max_element(first, last) - first\<close>: the position of the first element that no
  later element exceeds. On an empty range the iterator returned is \<open>last\<close>, which is
  \<open>first\<close>, so the difference is 0. The loop keeps the position and value of the
  largest element seen so far and replaces it only on a strictly larger one.
\<close>

fun max_element_loop :: "double list \<Rightarrow> nat \<Rightarrow> nat \<Rightarrow> double \<Rightarrow> nat" where
  "max_element_loop [] i largest lv = largest"
| "max_element_loop (x # xs) i largest lv =
     (if d_less lv x then max_element_loop xs (Suc i) i x
      else max_element_loop xs (Suc i) largest lv)"

definition max_element :: "double list \<Rightarrow> nat" where
  "max_element xs = (case xs of [] \<Rightarrow> 0 | x # rest \<Rightarrow> max_element_loop rest 1 0 x)"

section \<open>The blockmodel\<close>

text \<open>
  Modelled from the spec: the class \<open>UndirectedBlockmodel\<close> (block/blockmodel.h) is
  not part of the sources at hand. The spec gives its state: a reference to the graph,
  the number of types K, the type assignment, and the derived probability matrix and
  cached log-likelihood. The fields carry the names of the getters that the optimizer
  and the driver call.
\<close>

record UndirectedBlockmodel =
  getGraph :: Graph
  getNumTypes :: nat
  getTypes :: "nat list"
  getProbabilities :: Matrix
  getLogLikelihood :: real

definition getType :: "UndirectedBlockmodel \<Rightarrow> nat \<Rightarrow> nat" where
  "getType model v = getTypes model ! v"

text \<open>
  Modelled from the spec: the derived state. For blocks \<open>a\<close> and \<open>b\<close> the probability is
  the "observed edge count between the two blocks divided by the number of possible
  vertex pairs spanning them (with the diagonal case excluding self-pairs)". Walking the
  adjacency lists meets every edge inside a block twice, hence the halving on the
  diagonal. The log-likelihood is that of the "independent-Bernoulli edge model per
  block pair": every unordered block pair contributes
  \<open>E * ln p + (N - E) * ln (1 - p)\<close> for its \<open>E\<close> edges among \<open>N\<close> vertex pairs. A pair with
  \<open>p = 0\<close> or \<open>p = 1\<close>, or with no vertex pairs at all, contributes zero, as the spec asks;
  here this follows from \<open>ln 0 = 0\<close> and \<open>x / 0 = 0\<close>.
\<close>

definition count_of_type :: "nat list \<Rightarrow> nat \<Rightarrow> nat" where
  "count_of_type ts a = length (filter (\<lambda>t. t = a) ts)"

definition edge_ends :: "Graph \<Rightarrow> nat list \<Rightarrow> nat \<Rightarrow> nat \<Rightarrow> nat" where
  "edge_ends g ts a b =
     sum_list (map (\<lambda>i. if ts ! i = a then length (filter (\<lambda>j. ts ! j = b) (g ! i)) else 0)
       [0..<length g])"

definition edge_count :: "Graph \<Rightarrow> nat list \<Rightarrow> nat \<Rightarrow> nat \<Rightarrow> nat" where
  "edge_count g ts a b = (if a = b then edge_ends g ts a b div 2 else edge_ends g ts a b)"

definition pair_count :: "nat list \<Rightarrow> nat \<Rightarrow> nat \<Rightarrow> nat" where
  "pair_count ts a b =
     (if a = b then count_of_type ts a * (count_of_type ts a - 1) div 2
      else count_of_type ts a * count_of_type ts b)"

definition calc_probability :: "Graph \<Rightarrow> nat list \<Rightarrow> nat \<Rightarrow> nat \<Rightarrow> real" where
  "calc_probability g ts a b = real (edge_count g ts a b) / real (pair_count ts a b)"

definition calc_probabilities :: "Graph \<Rightarrow> nat \<Rightarrow> nat list \<Rightarrow> Matrix" where
  "calc_probabilities g k ts = map (\<lambda>a. map (\<lambda>b. calc_probability g ts a b) [0..<k]) [0..<k]"

definition pair_logL :: "Graph \<Rightarrow> nat list \<Rightarrow> nat \<Rightarrow> nat \<Rightarrow> real" where
  "pair_logL g ts a b =
     real (edge_count g ts a b) * ln (calc_probability g ts a b) +
     real (pair_count ts a b - edge_count g ts a b) * ln (1 - calc_probability g ts a b)"

definition calc_logLikelihood :: "Graph \<Rightarrow> nat \<Rightarrow> nat list \<Rightarrow> real" where
  "calc_logLikelihood g k ts =
     sum_list (map (\<lambda>a. sum_list (map (\<lambda>b. pair_logL g ts a b) [a..<k])) [0..<k])"

text \<open>
  Modelled from the spec: \<open>setTypes\<close> "bulk-replaces the entire assignment; recomputes
  derived state from scratch".
\<close>

definition setTypes :: "UndirectedBlockmodel \<Rightarrow> nat list \<Rightarrow> UndirectedBlockmodel" where
  "setTypes model ts =
     model\<lparr>getTypes := ts,
           getProbabilities := calc_probabilities (getGraph model) (getNumTypes model) ts,
           getLogLikelihood := calc_logLikelihood (getGraph model) (getNumTypes model) ts\<rparr>"

text \<open>
  A model as the constructor followed by \<open>setTypes\<close> leaves it: derived state
  consistent with the assignment.
\<close>

definition mk_model :: "Graph \<Rightarrow> nat \<Rightarrow> nat list \<Rightarrow> UndirectedBlockmodel" where
  "mk_model g k ts =
     \<lparr>getGraph = g, getNumTypes = k, getTypes = ts,
      getProbabilities = calc_probabilities g k ts,
      getLogLikelihood = calc_logLikelihood g k ts\<rparr>"

section \<open>GreedyStrategy (src/lib/optimization.cpp)\<close>

text \<open>
  The helper in the anonymous namespace, as written: \<open>return 1.0 - log(x);\<close>.
\<close>

definition log_1_minus_x :: "double \<Rightarrow> double" where
  "log_1_minus_x x = d_sub (Fin 1) (d_log x)"

text \<open>
  Lines 22 to 29 of \<open>step\<close>: \<open>logP\<close> starts as a copy of the probabilities, \<open>log1P\<close> is
  filled with \<open>log_1_minus_x\<close> of them, \<open>logP\<close> is overwritten with their logarithms, and
  \<open>log1P\<close> is subtracted from it. For a probability 0 the logarithm is minus infinity,
  \<open>log_1_minus_x\<close> is plus infinity and the difference is minus infinity.
\<close>

definition step_weights :: "Matrix \<Rightarrow> double list list" where
  "step_weights P =
     (let logP = map (map Fin) P;
          log1P = transform log_1_minus_x logP;
          logP = transform d_log logP
      in mat_sub logP log1P)"

text \<open>
  Lines 43 to 47: the vector of \<open>k\<close> zeros in which the type of every neighbour is
  counted. The subscript is unchecked in the program; under the blockmodel's invariant
  (every type below K) it is in range.
\<close>

definition count_neighbor_types :: "UndirectedBlockmodel \<Rightarrow> nat \<Rightarrow> nat list \<Rightarrow> Vector" where
  "count_neighbor_types model k neis =
     fold (\<lambda>it neiCountByType.
             neiCountByType[getType model it := neiCountByType ! getType model it + 1])
       neis (replicate k 0)"

text \<open>Line 51: the candidate scores of vertex \<open>i\<close>, one per row of the weight matrix.\<close>

definition vertex_scores ::
  "UndirectedBlockmodel \<Rightarrow> double list list \<Rightarrow> nat \<Rightarrow> double list" where
  "vertex_scores model logP i =
     (let k = getNumTypes model;
          neiCountByType = count_neighbor_types model k (neighbors (getGraph model) i)
      in mat_vec_mult logP neiCountByType)"

text \<open>
  Lines 32 to 56: the sweep over the vertices. It writes into the buffer \<open>newTypes\<close>
  (created with \<open>n\<close> zeros) and reads the model.
\<close>

definition step_sweep :: "UndirectedBlockmodel \<Rightarrow> double list list \<Rightarrow> nat \<Rightarrow> nat list" where
  "step_sweep model logP n =
     fold (\<lambda>i newTypes. newTypes[i := max_element (vertex_scores model logP i)])
       [0..<n] (replicate n 0)"

definition step :: "UndirectedBlockmodel \<Rightarrow> bool \<times> UndirectedBlockmodel" where
  "step model =
     (let graph = getGraph model;
          n = vcount graph;
          logP = step_weights (getProbabilities model);
          newTypes = step_sweep model logP n
      in if newTypes \<noteq> getTypes model then (True, setTypes model newTypes)
         else (False, model))"

text \<open>
  \<open>optimize\<close> is \<open>while (step(model));\<close>. Nothing bounds the number of rounds, so the
  result is optional: \<open>None\<close> stands for a loop that never ends.
\<close>

partial_function (option) optimize :: "UndirectedBlockmodel \<Rightarrow> UndirectedBlockmodel option" where
  "optimize model =
     (if fst (step model) then optimize (snd (step model)) else Some (snd (step model)))"

text \<open>
  The score the specification describes, for comparison: the weights are the log-odds
  \<open>log p - log (1 - p)\<close> of the block-pair probabilities.
\<close>

definition log_odds :: "double \<Rightarrow> double" where
  "log_odds p = d_sub (d_log p) (d_log (d_sub (Fin 1) p))"

definition spec_weights :: "Matrix \<Rightarrow> double list list" where
  "spec_weights P = transform log_odds (map (map Fin) P)"

text \<open>
  The step as the specification words it, with the log-odds weights in place of the
  weights the program computes; everything else is as in \<open>step\<close>.
\<close>

definition step_log_odds :: "UndirectedBlockmodel \<Rightarrow> bool \<times> UndirectedBlockmodel" where
  "step_log_odds model =
     (let graph = getGraph model;
          n = vcount graph;
          logP = spec_weights (getProbabilities model);
          newTypes = step_sweep model logP n
      in if newTypes \<noteq> getTypes model then (True, setTypes model newTypes)
         else (False, model))"

section \<open>Example models\<close>

text \<open>
  A path on four vertices in a single block: three edges among six vertex pairs, so the
  only probability is one half.
\<close>

definition path4 :: UndirectedBlockmodel where
  "path4 = mk_model [[1], [0, 2], [1, 3], [2]] 1 [0, 0, 0, 0]"

text \<open>
  Seven vertices with the edges 0-3, 1-4, 1-6, 2-5 and 3-4, in the blocks \<open>{0, 2, 3, 5}\<close>
  and \<open>{1, 4, 6}\<close>. Every block-pair probability lies strictly between 0 and 1.
\<close>

definition ex7_graph :: Graph where
  "ex7_graph = [[3], [4, 6], [5], [0, 4], [1, 3], [2], [1]]"

definition ex7_types :: "nat list" where
  "ex7_types = [0, 1, 0, 0, 1, 0, 1]"

definition ex7_new_types :: "nat list" where
  "ex7_new_types = [0, 1, 0, 1, 1, 0, 1]"

definition ex7 :: UndirectedBlockmodel where
  "ex7 = mk_model ex7_graph 2 ex7_types"

text \<open>
  Seven vertices with the edges 0-1, 1-2, 2-3 and 3-4, the blocks \<open>{0, 1, 2}\<close> and
  \<open>{3, 4, 5, 6}\<close>; the vertices 5 and 6 have no neighbours.
\<close>

definition iso7_graph :: Graph where
  "iso7_graph = [[1], [0, 2], [1, 3], [2, 4], [3], [], []]"

definition iso7_types :: "nat list" where
  "iso7_types = [0, 0, 0, 1, 1, 1, 1]"

definition iso7 :: UndirectedBlockmodel where
  "iso7 = mk_model iso7_graph 2 iso7_types"

text \<open>
  Seven vertices with the edges 0-1, 1-2, 2-3, 3-4, 3-5, 4-5 and 5-6 in the blocks
  \<open>{0, 1, 2}\<close> and \<open>{3, 4, 5, 6}\<close>: two groups joined by the single edge 2-3.
\<close>

definition fix7_graph :: Graph where
  "fix7_graph = [[1], [0, 2], [1, 3], [2, 4, 5], [3, 5], [3, 4, 6], [5]]"

definition fix7_types :: "nat list" where
  "fix7_types = [0, 0, 0, 1, 1, 1, 1]"

definition fix7 :: UndirectedBlockmodel where
  "fix7 = mk_model fix7_graph 2 fix7_types"

text \<open>
  The model of \<open>test_two_rings\<close> (test/greedy_strategy_test.cpp): two rings of five
  vertices, one block per ring, so that the probability between the blocks is 0; and
  the same model after vertex 0 has been put into the other block.
\<close>

definition two_rings_graph :: Graph where
  "two_rings_graph =
     [[1, 4], [0, 2], [1, 3], [2, 4], [0, 3], [6, 9], [5, 7], [6, 8], [7, 9], [5, 8]]"

definition two_rings_types :: "nat list" where
  "two_rings_types = [0, 0, 0, 0, 0, 1, 1, 1, 1, 1]"

definition two_rings :: UndirectedBlockmodel where
  "two_rings = mk_model two_rings_graph 2 two_rings_types"

definition two_rings_changed_types :: "nat list" where
  "two_rings_changed_types = [1, 0, 0, 0, 0, 1, 1, 1, 1, 1]"

definition two_rings_changed :: UndirectedBlockmodel where
  "two_rings_changed = mk_model two_rings_graph 2 two_rings_changed_types"

section \<open>The fitting application (src/ui/block-fit/main.cpp)\<close>

text \<open>
  The parsed command line (cmd_arguments.cpp); \<open>inputFile\<close>, \<open>verbosity\<close> and
  \<open>randomSeed\<close> come from the base class of the argument parser.
\<close>

datatype OutputFormat = FORMAT_PLAIN | FORMAT_JSON | FORMAT_NULL

datatype InitMethod = GREEDY | RANDOM

record CommandLineArguments =
  inputFile :: string
  verbosity :: int
  randomSeed :: nat
  numGroups :: int
  numSamples :: int
  outputFormat :: OutputFormat
  blockSize :: int
  initMethod :: InitMethod
  logPeriod :: int

text \<open>
  Modelled from the spec: the collaborators of the driver that are not part of the
  sources at hand, taken as parameters. \<open>'r\<close> is the state of the
  \<open>MetropolisHastingsStrategy\<close> (its counters and its random source), \<open>'c\<close> the state
  of the convergence criterion. The sampler works on the model it was given by
  \<open>setModel\<close>, which is the model the application owns, so a sampler step maps the
  sampler state and that model to their successors. \<open>new_model\<close> is the constructor
  \<open>UndirectedBlockmodel(graph, groupCount)\<close>, \<open>default_model\<close> the default
  constructor, \<open>read_edgelist\<close> is \<open>Graph::ReadEdgelist\<close>, which yields a graph or
  fails with a message.
\<close>

record ('r, 'c) collaborators =
  mcmc_step :: "'r \<Rightarrow> UndirectedBlockmodel \<Rightarrow> 'r \<times> UndirectedBlockmodel"
  init_genrand :: "nat \<Rightarrow> 'r \<Rightarrow> 'r"
  randomize :: "'r \<Rightarrow> UndirectedBlockmodel \<Rightarrow> 'r \<times> UndirectedBlockmodel"
  new_model :: "Graph \<Rightarrow> nat \<Rightarrow> UndirectedBlockmodel"
  default_model :: UndirectedBlockmodel
  new_criterion :: 'c
  check :: "'c \<Rightarrow> Vector \<Rightarrow> bool \<times> 'c"
  read_edgelist :: "string \<Rightarrow> string + Graph"

text \<open>
  What ends a run abnormally: the \<open>std::runtime_error\<close> thrown by \<open>loadGraph\<close>, a
  failure inside \<open>Graph::ReadEdgelist\<close>, and the two places where the program has no
  defined behaviour: the remainder \<open>getStepCount() % logPeriod\<close> with a zero
  \<open>logPeriod\<close>, and the use of an \<open>auto_ptr\<close> that holds no object.
\<close>

datatype error =
  RuntimeError string
| EdgelistError string
| DivisionByZero
| NullPointer

text \<open>
  The members of \<open>BlockmodelFittingApp\<close>. The two \<open>auto_ptr\<close> members start out
  empty. \<open>written\<close> collects what \<open>dumpBestState\<close> hands to the writer, in order.
\<close>

record 'r BlockmodelFittingApp =
  m_pGraph :: "Graph option"
  m_pModel :: "UndirectedBlockmodel option"
  m_mcmc :: 'r
  m_bestLogL :: real
  m_bestModel :: UndirectedBlockmodel
  m_dumpBestStateFlag :: bool
  m_pModelWriter :: "OutputFormat option"
  written :: "(OutputFormat \<times> UndirectedBlockmodel) list"

text \<open>\<open>std::numeric_limits<double>::max()\<close>.\<close>

definition DBL_MAX :: real where
  "DBL_MAX = (2 - 1 / 2 ^ 52) * 2 ^ 1023"

definition dumpBestState :: "'r BlockmodelFittingApp \<Rightarrow> 'r BlockmodelFittingApp" where
  "dumpBestState app =
     (case m_pModelWriter app of
        Some writer \<Rightarrow>
          app\<lparr>written := written app @ [(writer, m_bestModel app)], m_dumpBestStateFlag := False\<rparr>
      | None \<Rightarrow> app\<lparr>m_dumpBestStateFlag := False\<rparr>)"

definition raiseDumpBestStateFlag :: "'r BlockmodelFittingApp \<Rightarrow> 'r BlockmodelFittingApp" where
  "raiseDumpBestStateFlag app = app\<lparr>m_dumpBestStateFlag := True\<rparr>"

text \<open>
  \<open>loadGraph\<close>. The file system is the map from the names of the files that \<open>fopen\<close>
  can open for reading to their contents; \<open>stdin\<close> is the content of the standard
  input. The attribute \<open>filename\<close> that is attached to the graph is not represented.
\<close>

definition loadGraph ::
  "('r, 'c) collaborators \<Rightarrow> (string \<rightharpoonup> string) \<Rightarrow> string \<Rightarrow> string \<Rightarrow> error + Graph" where
  "loadGraph env fs stdin filename =
     (if filename \<noteq> ''-'' then
        (case fs filename of
           None \<Rightarrow> Inl (RuntimeError (''File not found: '' @ filename))
         | Some fptr \<Rightarrow>
             (case read_edgelist env fptr of
                Inl msg \<Rightarrow> Inl (EdgelistError msg)
              | Inr graph \<Rightarrow> Inr graph))
      else
        (case read_edgelist env stdin of
           Inl msg \<Rightarrow> Inl (EdgelistError msg)
         | Inr graph \<Rightarrow> Inr graph))"

text \<open>
  One round of the loop of \<open>runBlock\<close>: a sampler step, the update of the best model
  and best log-likelihood, the new sample, the progress line and the pending dump. The
  progress line goes to the log and changes nothing, but its condition computes a
  remainder by \<open>logPeriod\<close> in every round.
\<close>

definition runBlock_body ::
  "('r, 'c) collaborators \<Rightarrow> CommandLineArguments \<Rightarrow> 'r BlockmodelFittingApp \<times> Vector
     \<Rightarrow> error + 'r BlockmodelFittingApp \<times> Vector" where
  "runBlock_body env args s =
     (case m_pModel (fst s) of
        None \<Rightarrow> Inl NullPointer
      | Some model \<Rightarrow>
          (let app = fst s;
               samples = snd s;
               stepped = mcmc_step env (m_mcmc app) model;
               app = app\<lparr>m_mcmc := fst stepped, m_pModel := Some (snd stepped)\<rparr>;
               logL = getLogLikelihood (snd stepped);
               app = (if m_bestLogL app < logL
                      then app\<lparr>m_bestModel := snd stepped, m_bestLogL := logL\<rparr>
                      else app);
               samples = samples @ [logL]
           in if logPeriod args = 0 then Inl DivisionByZero
              else Inr (if m_dumpBestStateFlag app then dumpBestState app else app, samples)))"

fun runBlock_loop ::
  "('r, 'c) collaborators \<Rightarrow> CommandLineArguments \<Rightarrow> nat \<Rightarrow> 'r BlockmodelFittingApp \<times> Vector
     \<Rightarrow> error + 'r BlockmodelFittingApp \<times> Vector" where
  "runBlock_loop env args 0 s = Inr s"
| "runBlock_loop env args (Suc remaining) s =
     (case runBlock_body env args s of
        Inl e \<Rightarrow> Inl e
      | Inr s' \<Rightarrow> runBlock_loop env args remaining s')"

text \<open>
  \<open>runBlock(numSamples, samples)\<close>: the vector is cleared, then the loop runs while
  the count is positive, counting down; a count that is not positive means no round.
\<close>

definition runBlock ::
  "('r, 'c) collaborators \<Rightarrow> CommandLineArguments \<Rightarrow> int \<Rightarrow> 'r BlockmodelFittingApp
     \<Rightarrow> error + 'r BlockmodelFittingApp \<times> Vector" where
  "runBlock env args count app = runBlock_loop env args (nat count) (app, [])"

text \<open>
  \<open>runUntilHellFreezesOver\<close>: blocks of 1000 samples without end. It can only stop by
  failing.
\<close>

partial_function (option) runUntilHellFreezesOver ::
  "('r, 'c) collaborators \<Rightarrow> CommandLineArguments \<Rightarrow> 'r BlockmodelFittingApp
     \<Rightarrow> (error + 'r BlockmodelFittingApp) option" where
  "runUntilHellFreezesOver env args app =
     (case runBlock env args 1000 app of
        Inl e \<Rightarrow> Some (Inl e)
      | Inr s \<Rightarrow> runUntilHellFreezesOver env args (fst s))"

text \<open>
  The loop of \<open>fitForGivenGroupCount\<close> that runs the chain, a block at a time, until
  the criterion reports convergence. Nothing bounds the number of blocks.
\<close>

partial_function (option) converge_loop ::
  "('r, 'c) collaborators \<Rightarrow> CommandLineArguments \<Rightarrow> 'c \<Rightarrow> 'r BlockmodelFittingApp
     \<Rightarrow> (error + 'r BlockmodelFittingApp) option" where
  "converge_loop env args pConvCrit app =
     (case runBlock env args (blockSize args) app of
        Inl e \<Rightarrow> Some (Inl e)
      | Inr s \<Rightarrow>
          (if fst (check env pConvCrit (snd s)) then Some (Inr (fst s))
           else converge_loop env args (snd (check env pConvCrit (snd s))) (fst s)))"

text \<open>
  \<open>fitForGivenGroupCount\<close>: a fresh, randomized model; the greedy initialisation, which
  steps until a step reports no change; the best model and best log-likelihood are
  reset to this model; then the chain runs until convergence.
\<close>

definition fitForGivenGroupCount ::
  "('r, 'c) collaborators \<Rightarrow> CommandLineArguments \<Rightarrow> nat \<Rightarrow> 'r BlockmodelFittingApp
     \<Rightarrow> (error + 'r BlockmodelFittingApp) option" where
  "fitForGivenGroupCount env args groupCount app =
     (case m_pGraph app of
        None \<Rightarrow> Some (Inl NullPointer)
      | Some graph \<Rightarrow>
          (let randomized = randomize env (m_mcmc app) (new_model env graph groupCount)
           in case (if initMethod args = GREEDY then optimize (snd randomized)
                    else Some (snd randomized)) of
                None \<Rightarrow> None
              | Some model \<Rightarrow>
                  converge_loop env args (new_criterion env)
                    (app\<lparr>m_pModel := Some model, m_mcmc := fst randomized,
                         m_bestModel := model, m_bestLogL := getLogLikelihood model\<rparr>)))"

text \<open>
  The sweep over the type counts in \<open>run\<close>:
  \<open>for (int k = 2; k <= sqrt(vcount); k++)\<close>. The state of the loop is the application
  and the locals \<open>bestAIC\<close>, \<open>bestBIC\<close> and \<open>bestModel\<close>. The information criteria
  \<open>aic\<close> and \<open>bic\<close> (block/util.hpp) are not part of the sources at hand and are
  parameters.
\<close>

function sweep_loop ::
  "('r, 'c) collaborators \<Rightarrow> CommandLineArguments \<Rightarrow> (UndirectedBlockmodel \<Rightarrow> real)
     \<Rightarrow> (UndirectedBlockmodel \<Rightarrow> real) \<Rightarrow> nat \<Rightarrow> nat
     \<Rightarrow> 'r BlockmodelFittingApp \<Rightarrow> real \<Rightarrow> real \<Rightarrow> UndirectedBlockmodel
     \<Rightarrow> (error + 'r BlockmodelFittingApp \<times> real \<times> real \<times> UndirectedBlockmodel) option" where
  "sweep_loop env args aic bic n k app bestAIC bestBIC bestModel =
     (if real k \<le> sqrt (real n) then
        (case fitForGivenGroupCount env args k app of
           None \<Rightarrow> None
         | Some (Inl e) \<Rightarrow> Some (Inl e)
         | Some (Inr app') \<Rightarrow>
             sweep_loop env args aic bic n (Suc k) app'
               (if aic (m_bestModel app') < bestAIC then aic (m_bestModel app') else bestAIC)
               (if bic (m_bestModel app') < bestBIC then bic (m_bestModel app') else bestBIC)
               (if aic (m_bestModel app') < bestAIC then m_bestModel app' else bestModel))
      else Some (Inr (app, bestAIC, bestBIC, bestModel)))"
  by pat_completeness auto
termination
proof (relation "measure (\<lambda>(env, args, aic, bic, n, k, rest). Suc n - k)")
  show "wf (measure (\<lambda>(env, args, aic, bic, n, k, rest). Suc n - k))" by simp
next
  fix env :: "('r, 'c) collaborators" and args :: CommandLineArguments
    and aic bic :: "UndirectedBlockmodel \<Rightarrow> real" and n k :: nat
    and app :: "'r BlockmodelFittingApp" and bestAIC bestBIC :: real
    and bestModel :: UndirectedBlockmodel
    and x2 :: "error + 'r BlockmodelFittingApp" and b :: "'r BlockmodelFittingApp"
  assume le: "real k \<le> sqrt (real n)"
  have "k \<le> n"
  proof (cases "k = 0")
    case True
    then show ?thesis by simp
  next
    case False
    then have "real k \<le> real k * real k" by simp
    also have "\<dots> \<le> sqrt (real n) * sqrt (real n)" using le by (intro mult_mono) simp_all
    also have "\<dots> = real n" by simp
    finally show ?thesis by simp
  qed
  then show "((env, args, aic, bic, n, Suc k, b,
          if aic (m_bestModel b) < bestAIC then aic (m_bestModel b) else bestAIC,
          if bic (m_bestModel b) < bestBIC then bic (m_bestModel b) else bestBIC,
          if aic (m_bestModel b) < bestAIC then m_bestModel b else bestModel),
         env, args, aic, bic, n, k, app, bestAIC, bestBIC, bestModel)
        \<in> measure (\<lambda>(env, args, aic, bic, n, k, rest). Suc n - k)"
    by simp
qed

declare sweep_loop.simps [simp del]

text \<open>
  The branch of \<open>run\<close> for an unspecified number of groups: the sweep, started with
  both criteria at the largest double and a default-constructed best model, and the
  three assignments after it. \<open>*m_pModel = bestModel\<close> needs a model to assign to.
\<close>

definition run_sweep ::
  "('r, 'c) collaborators \<Rightarrow> CommandLineArguments \<Rightarrow> (UndirectedBlockmodel \<Rightarrow> real)
     \<Rightarrow> (UndirectedBlockmodel \<Rightarrow> real) \<Rightarrow> 'r BlockmodelFittingApp
     \<Rightarrow> (error + 'r BlockmodelFittingApp) option" where
  "run_sweep env args aic bic app =
     (case m_pGraph app of
        None \<Rightarrow> Some (Inl NullPointer)
      | Some graph \<Rightarrow>
          (case sweep_loop env args aic bic (vcount graph) 2 app DBL_MAX DBL_MAX
                  (default_model env) of
             None \<Rightarrow> None
           | Some (Inl e) \<Rightarrow> Some (Inl e)
           | Some (Inr (app', bestAIC, bestBIC, bestModel)) \<Rightarrow>
               (case m_pModel app' of
                  None \<Rightarrow> Some (Inl NullPointer)
                | Some model \<Rightarrow>
                    Some (Inr (app'\<lparr>m_pModel := Some bestModel, m_bestModel := bestModel,
                                   m_bestLogL := getLogLikelihood bestModel\<rparr>)))))"

text \<open>
  \<open>run\<close>, after the command line has been parsed: the writer is chosen, the graph is
  loaded, the random source is seeded, the model is fitted, and the final samples are
  taken. An exception leaves \<open>run\<close> at once; \<open>main\<close> does not catch it.
\<close>

definition run ::
  "('r, 'c) collaborators \<Rightarrow> (UndirectedBlockmodel \<Rightarrow> real) \<Rightarrow> (UndirectedBlockmodel \<Rightarrow> real)
     \<Rightarrow> (string \<rightharpoonup> string) \<Rightarrow> string \<Rightarrow> CommandLineArguments \<Rightarrow> 'r BlockmodelFittingApp
     \<Rightarrow> (error + 'r BlockmodelFittingApp) option" where
  "run env aic bic fs stdin args app =
     (let app = app\<lparr>m_pModelWriter :=
                  Some (case outputFormat args of
                          FORMAT_JSON \<Rightarrow> FORMAT_JSON
                        | FORMAT_NULL \<Rightarrow> FORMAT_NULL
                        | FORMAT_PLAIN \<Rightarrow> FORMAT_PLAIN)\<rparr>
      in case loadGraph env fs stdin (inputFile args) of
           Inl e \<Rightarrow> Some (Inl e)
         | Inr graph \<Rightarrow>
             (let app = app\<lparr>m_pGraph := Some graph,
                            m_mcmc := init_genrand env (randomSeed args) (m_mcmc app)\<rparr>
              in case (if numGroups args > 0
                       then fitForGivenGroupCount env args (nat (numGroups args)) app
                       else run_sweep env args aic bic app) of
                   None \<Rightarrow> None
                 | Some (Inl e) \<Rightarrow> Some (Inl e)
                 | Some (Inr app) \<Rightarrow>
                     (if numSamples args > 0 then
                        (case runBlock env args (numSamples args) app of
                           Inl e \<Rightarrow> Some (Inl e)
                         | Inr s \<Rightarrow> Some (Inr (dumpBestState (fst s))))
                      else
                        (case runUntilHellFreezesOver env args app of
                           None \<Rightarrow> None
                         | Some (Inl e) \<Rightarrow> Some (Inl e)
                         | Some (Inr app) \<Rightarrow> Some (Inr (dumpBestState app))))))"

text \<open>
  For comparison with the driver, the specification's reading of "runs the full
  fit-to-convergence procedure (greedy init, then MCMC to convergence)" for every
  candidate. The chain has converged from a state when some number of blocks, none of
  which the criterion accepts, is followed by a block that the criterion accepts; the
  criterion carries its state from block to block.
\<close>

inductive chain_converges ::
  "('r, 'c) collaborators \<Rightarrow> CommandLineArguments \<Rightarrow> 'c \<Rightarrow> 'r BlockmodelFittingApp
     \<Rightarrow> 'r BlockmodelFittingApp \<Rightarrow> bool"
  for env :: "('r, 'c) collaborators" and args :: CommandLineArguments where
  converged:
    "runBlock env args (blockSize args) app = Inr (app', samples) \<Longrightarrow>
     fst (check env crit samples) \<Longrightarrow>
     chain_converges env args crit app app'"
| another_block:
    "runBlock env args (blockSize args) app = Inr (app1, samples) \<Longrightarrow>
     \<not> fst (check env crit samples) \<Longrightarrow>
     chain_converges env args (snd (check env crit samples)) app1 app' \<Longrightarrow>
     chain_converges env args crit app app'"

text \<open>
  A candidate has been fitted to convergence from one state of the application to
  another when a new model with that many groups on the loaded graph has been
  randomized, the greedy initialisation (if it is the chosen method) has come to its
  fixed point, the best model and best log-likelihood have been set to this model, and
  the chain started from there has converged to the second state.
\<close>

definition fitted_to_convergence ::
  "('r, 'c) collaborators \<Rightarrow> CommandLineArguments \<Rightarrow> nat \<Rightarrow> 'r BlockmodelFittingApp
     \<Rightarrow> 'r BlockmodelFittingApp \<Rightarrow> bool" where
  "fitted_to_convergence env args k app app' =
     (\<exists>graph model.
        m_pGraph app = Some graph \<and>
        (if initMethod args = GREEDY
         then optimize (snd (randomize env (m_mcmc app) (new_model env graph k))) = Some model
         else model = snd (randomize env (m_mcmc app) (new_model env graph k))) \<and>
        chain_converges env args (new_criterion env)
          (app\<lparr>m_pModel := Some model,
               m_mcmc := fst (randomize env (m_mcmc app) (new_model env graph k)),
               m_bestModel := model, m_bestLogL := getLogLikelihood model\<rparr>)
          app')"

text \<open>
  The candidates are fitted in order, each fit starting from the state the previous one
  left; \<open>states\<close> lists the states of the application after the fits.
\<close>

fun fits_in_order ::
  "('r, 'c) collaborators \<Rightarrow> CommandLineArguments \<Rightarrow> nat list \<Rightarrow> 'r BlockmodelFittingApp
     \<Rightarrow> 'r BlockmodelFittingApp list \<Rightarrow> bool" where
  "fits_in_order env args [] app states = (states = [])"
| "fits_in_order env args (k # ks) app [] = False"
| "fits_in_order env args (k # ks) app (app' # states) =
     (fitted_to_convergence env args k app app' \<and> fits_in_order env args ks app' states)"

text \<open>
  The fits of the sweep as a function of the list of candidates: the calls of
  \<open>fitForGivenGroupCount\<close> one after the other, collecting the states they return.
\<close>

fun fit_candidates ::
  "('r, 'c) collaborators \<Rightarrow> CommandLineArguments \<Rightarrow> nat list \<Rightarrow> 'r BlockmodelFittingApp
     \<Rightarrow> (error + 'r BlockmodelFittingApp list) option" where
  "fit_candidates env args [] app = Some (Inr [])"
| "fit_candidates env args (k # ks) app =
     (case fitForGivenGroupCount env args k app of
        None \<Rightarrow> None
      | Some (Inl e) \<Rightarrow> Some (Inl e)
      | Some (Inr app') \<Rightarrow>
          (case fit_candidates env args ks app' of
             None \<Rightarrow> None
           | Some (Inl e) \<Rightarrow> Some (Inl e)
           | Some (Inr states) \<Rightarrow> Some (Inr (app' # states))))"

text \<open>
  What one round of the sweep does to the locals \<open>bestAIC\<close>, \<open>bestBIC\<close> and
  \<open>bestModel\<close>, given the best model of the fit of that round.
\<close>

definition sweep_select ::
  "(UndirectedBlockmodel \<Rightarrow> real) \<Rightarrow> (UndirectedBlockmodel \<Rightarrow> real) \<Rightarrow> UndirectedBlockmodel
     \<Rightarrow> real \<times> real \<times> UndirectedBlockmodel \<Rightarrow> real \<times> real \<times> UndirectedBlockmodel" where
  "sweep_select aic bic m best =
     (if aic m < fst best then aic m else fst best,
      if bic m < fst (snd best) then bic m else fst (snd best),
      if aic m < fst best then m else snd (snd best))"

section \<open>Example runs of the application\<close>

text \<open>
  Collaborators for the examples: a sampler that moves the model between the two
  assignments of \<open>ex7\<close>, a random source that is its seed, a \<open>randomize\<close> that leaves
  the all-zero assignment of a new model, a criterion that reports convergence at once,
  and an edge-list reader that fails on empty input.
\<close>

definition ex7_moved :: UndirectedBlockmodel where
  "ex7_moved = setTypes ex7 ex7_new_types"

definition demo_env :: "(nat, unit) collaborators" where
  "demo_env =
     \<lparr>mcmc_step = (\<lambda>r model.
        (Suc r, setTypes model (if getTypes model = ex7_types then ex7_new_types else ex7_types))),
      init_genrand = (\<lambda>seed r. seed),
      randomize = (\<lambda>r model. (r, model)),
      new_model = (\<lambda>graph k. mk_model graph k (replicate (vcount graph) 0)),
      default_model = mk_model [] 0 [],
      new_criterion = (),
      check = (\<lambda>crit samples. (True, crit)),
      read_edgelist = (\<lambda>content. if content = [] then Inl ''no edges'' else Inr ex7_graph)\<rparr>"

definition demo_args :: CommandLineArguments where
  "demo_args =
     \<lparr>inputFile = ''missing.txt'', verbosity = 1, randomSeed = 42, numGroups = - 1,
      numSamples = 2, outputFormat = FORMAT_PLAIN, blockSize = 0, initMethod = RANDOM,
      logPeriod = 8192\<rparr>"

definition demo_app :: "nat BlockmodelFittingApp" where
  "demo_app =
     \<lparr>m_pGraph = Some ex7_graph, m_pModel = Some ex7_moved, m_mcmc = 0,
      m_bestLogL = getLogLikelihood ex7_moved, m_bestModel = ex7_moved,
      m_dumpBestStateFlag = False, m_pModelWriter = Some FORMAT_PLAIN, written = []\<rparr>"

definition demo_app1 :: "nat BlockmodelFittingApp" where
  "demo_app1 = demo_app\<lparr>m_pModel := Some ex7, m_mcmc := 1,
                          m_bestLogL := getLogLikelihood ex7, m_bestModel := ex7\<rparr>"

definition demo_app2 :: "nat BlockmodelFittingApp" where
  "demo_app2 = demo_app1\<lparr>m_pModel := Some ex7_moved, m_mcmc := 2\<rparr>"









definition demo_aic :: "UndirectedBlockmodel \<Rightarrow> real" where
  "demo_aic model = - real (getNumTypes model)"

definition demo_bic :: "UndirectedBlockmodel \<Rightarrow> real" where
  "demo_bic model = real (getNumTypes model)"

section \<open>Properties of the primitives\<close>

lemma d_less_irrefl: "\<not> d_less x x"
  by (cases x) simp_all

lemma d_less_trans:
  assumes "d_less x y" and "d_less y z"
  shows "d_less x z"
  using assms by (cases x; cases y; cases z) simp_all

lemma d_le_not_NaN:
  assumes "d_le x y"
  shows "x \<noteq> NaN" and "y \<noteq> NaN"
  using assms by (cases x; cases y; simp)+

lemma d_le_refl:
  assumes "x \<noteq> NaN"
  shows "d_le x x"
  using assms by (cases x) simp_all

lemma d_not_less_le:
  assumes "x \<noteq> NaN" and "y \<noteq> NaN" and "\<not> d_less x y"
  shows "d_le y x"
  using assms by (cases x; cases y) simp_all

lemma d_le_less_trans:
  assumes "d_le x y" and "d_less y z"
  shows "d_less x z"
  using assms by (cases x; cases y; cases z) simp_all

lemma d_le_antisym:
  assumes "d_le x y" and "d_le y x"
  shows "x = y"
  using assms by (cases x; cases y) simp_all

lemma d_less_not_le:
  assumes "d_less x y"
  shows "\<not> d_le y x"
  using assms by (cases x; cases y) simp_all

lemma max_element_loop_props:
  assumes "length ps = i" and "largest < i" and "ps ! largest = lv"
    and "\<forall>j<i. \<not> d_less lv (ps ! j)"
  shows "max_element_loop xs i largest lv < length (ps @ xs) \<and>
         (\<forall>j<length (ps @ xs).
            \<not> d_less ((ps @ xs) ! max_element_loop xs i largest lv) ((ps @ xs) ! j))"
  using assms
proof (induction xs arbitrary: ps i largest lv)
  case Nil
  then show ?case by auto
next
  case (Cons x xs)
  have len: "length (ps @ [x]) = Suc i" using Cons.prems by simp
  show ?case
  proof (cases "d_less lv x")
    case True
    have a: "i < Suc i" by simp
    have b: "(ps @ [x]) ! i = x" using Cons.prems by (simp add: nth_append)
    have d: "\<forall>j<Suc i. \<not> d_less x ((ps @ [x]) ! j)"
    proof (intro allI impI)
      fix j assume j: "j < Suc i"
      show "\<not> d_less x ((ps @ [x]) ! j)"
      proof (cases "j < i")
        case False
        with j have "j = i" by simp
        with b show ?thesis by (simp add: d_less_irrefl)
      next
        case lt: True
        then have e: "(ps @ [x]) ! j = ps ! j" using Cons.prems by (simp add: nth_append)
        have "\<not> d_less lv (ps ! j)" using Cons.prems lt by simp
        then have "\<not> d_less x (ps ! j)" using True d_less_trans by blast
        with e show ?thesis by simp
      qed
    qed
    from Cons.IH[OF len a b d] True show ?thesis by simp
  next
    case False
    have a: "largest < Suc i" using Cons.prems by simp
    have b: "(ps @ [x]) ! largest = lv" using Cons.prems by (simp add: nth_append)
    have d: "\<forall>j<Suc i. \<not> d_less lv ((ps @ [x]) ! j)"
    proof (intro allI impI)
      fix j assume j: "j < Suc i"
      show "\<not> d_less lv ((ps @ [x]) ! j)"
      proof (cases "j < i")
        case nlt: False
        with j have "j = i" by simp
        then have "(ps @ [x]) ! j = x" using Cons.prems by (simp add: nth_append)
        with False show ?thesis by simp
      next
        case lt: True
        then have "(ps @ [x]) ! j = ps ! j" using Cons.prems by (simp add: nth_append)
        with Cons.prems lt show ?thesis by simp
      qed
    qed
    from Cons.IH[OF len a b d] False show ?thesis by simp
  qed
qed

lemma max_element_loop_first:
  assumes "length ps = i" and "largest < i" and "ps ! largest = lv"
    and "\<forall>j<i. \<not> d_less lv (ps ! j)"
    and "\<forall>j<largest. d_less (ps ! j) lv"
    and "\<forall>x\<in>set (ps @ xs). x \<noteq> NaN"
  shows "\<forall>j<max_element_loop xs i largest lv.
           d_less ((ps @ xs) ! j) ((ps @ xs) ! max_element_loop xs i largest lv)"
  using assms
proof (induction xs arbitrary: ps i largest lv)
  case Nil
  then show ?case by auto
next
  case (Cons x xs)
  have len: "length (ps @ [x]) = Suc i" using Cons.prems by simp
  have nn: "\<forall>y\<in>set ((ps @ [x]) @ xs). y \<noteq> NaN" using Cons.prems(6) by simp
  show ?case
  proof (cases "d_less lv x")
    case True
    have a: "i < Suc i" by simp
    have b: "(ps @ [x]) ! i = x" using Cons.prems by (simp add: nth_append)
    have xn: "x \<noteq> NaN" using Cons.prems(6) by simp
    have lvn: "lv \<noteq> NaN" using True by (cases lv; cases x) simp_all
    have d: "\<forall>j<Suc i. \<not> d_less x ((ps @ [x]) ! j)"
    proof (intro allI impI)
      fix j assume j: "j < Suc i"
      show "\<not> d_less x ((ps @ [x]) ! j)"
      proof (cases "j < i")
        case False
        with j have "j = i" by simp
        with b show ?thesis by (simp add: d_less_irrefl)
      next
        case lt: True
        then have e: "(ps @ [x]) ! j = ps ! j" using Cons.prems by (simp add: nth_append)
        have "\<not> d_less lv (ps ! j)" using Cons.prems lt by simp
        then have "\<not> d_less x (ps ! j)" using True d_less_trans by blast
        with e show ?thesis by simp
      qed
    qed
    have f: "\<forall>j<i. d_less ((ps @ [x]) ! j) x"
    proof (intro allI impI)
      fix j assume lt: "j < i"
      then have e: "(ps @ [x]) ! j = ps ! j" using Cons.prems by (simp add: nth_append)
      have "ps ! j \<in> set ps" using lt Cons.prems(1) by simp
      then have pn: "ps ! j \<noteq> NaN" using Cons.prems(6) by simp
      have "\<not> d_less lv (ps ! j)" using Cons.prems lt by simp
      then have "d_le (ps ! j) lv" using d_not_less_le[OF lvn pn] by simp
      then have "d_less (ps ! j) x" using True by (rule d_le_less_trans)
      with e show "d_less ((ps @ [x]) ! j) x" by simp
    qed
    from Cons.IH[OF len a b d f nn] True show ?thesis by simp
  next
    case False
    have a: "largest < Suc i" using Cons.prems by simp
    have b: "(ps @ [x]) ! largest = lv" using Cons.prems by (simp add: nth_append)
    have d: "\<forall>j<Suc i. \<not> d_less lv ((ps @ [x]) ! j)"
    proof (intro allI impI)
      fix j assume j: "j < Suc i"
      show "\<not> d_less lv ((ps @ [x]) ! j)"
      proof (cases "j < i")
        case nlt: False
        with j have "j = i" by simp
        then have "(ps @ [x]) ! j = x" using Cons.prems by (simp add: nth_append)
        with False show ?thesis by simp
      next
        case lt: True
        then have "(ps @ [x]) ! j = ps ! j" using Cons.prems by (simp add: nth_append)
        with Cons.prems lt show ?thesis by simp
      qed
    qed
    have f: "\<forall>j<largest. d_less ((ps @ [x]) ! j) lv"
      using Cons.prems by (simp add: nth_append)
    from Cons.IH[OF len a b d f nn] False show ?thesis by simp
  qed
qed

lemma max_element_props:
  assumes "xs \<noteq> []"
  shows "max_element xs < length xs"
    and "\<forall>j<length xs. \<not> d_less (xs ! max_element xs) (xs ! j)"
proof -
  obtain x rest where xs: "xs = x # rest" using assms by (cases xs) auto
  have "max_element_loop rest 1 0 x < length ([x] @ rest) \<and>
         (\<forall>j<length ([x] @ rest).
            \<not> d_less (([x] @ rest) ! max_element_loop rest 1 0 x) (([x] @ rest) ! j))"
    by (rule max_element_loop_props) (simp_all add: d_less_irrefl)
  then show "max_element xs < length xs"
    and "\<forall>j<length xs. \<not> d_less (xs ! max_element xs) (xs ! j)"
    by (simp_all add: xs max_element_def)
qed

lemma max_element_first:
  assumes "\<forall>x\<in>set xs. x \<noteq> NaN"
  shows "\<forall>j<max_element xs. d_less (xs ! j) (xs ! max_element xs)"
proof (cases xs)
  case Nil
  then show ?thesis by (simp add: max_element_def)
next
  case (Cons x rest)
  have "\<forall>j<max_element_loop rest 1 0 x.
          d_less (([x] @ rest) ! j) (([x] @ rest) ! max_element_loop rest 1 0 x)"
    by (rule max_element_loop_first) (use assms Cons in \<open>simp_all add: d_less_irrefl\<close>)
  then show ?thesis by (simp add: Cons max_element_def)
qed

lemma max_element_loop_keep:
  assumes "\<forall>x\<in>set xs. \<not> d_less lv x"
  shows "max_element_loop xs i largest lv = largest"
  using assms by (induction xs arbitrary: i) simp_all

lemma max_element_all_equal:
  assumes "\<forall>x\<in>set xs. x = c"
  shows "max_element xs = 0"
proof (cases xs)
  case Nil
  then show ?thesis by (simp add: max_element_def)
next
  case (Cons x rest)
  have "\<forall>y\<in>set rest. \<not> d_less x y" using assms Cons by (simp add: d_less_irrefl)
  then show ?thesis by (simp add: Cons max_element_def max_element_loop_keep)
qed

lemma fold_update_upt:
  assumes "m \<le> length xs"
  shows "fold (\<lambda>i ys. ys[i := f i]) [0..<m] xs = map f [0..<m] @ drop m xs"
  using assms
proof (induction m)
  case 0
  then show ?case by simp
next
  case (Suc m)
  then have m: "m < length xs" by simp
  have "fold (\<lambda>i ys. ys[i := f i]) [0..<Suc m] xs = (map f [0..<m] @ drop m xs)[m := f m]"
    using Suc by simp
  also have "\<dots> = map f [0..<m] @ (drop m xs)[0 := f m]"
    by (simp add: list_update_append)
  also have "(drop m xs)[0 := f m] = f m # drop (Suc m) xs"
    using m by (simp add: Cons_nth_drop_Suc[symmetric])
  finally show ?case by simp
qed

lemma step_sweep_eq:
  "step_sweep model logP n = map (\<lambda>i. max_element (vertex_scores model logP i)) [0..<n]"
  by (simp add: step_sweep_def fold_update_upt)

lemma step_cases:
  "step model =
     (if step_sweep model (step_weights (getProbabilities model)) (vcount (getGraph model))
           \<noteq> getTypes model
      then (True, setTypes model
              (step_sweep model (step_weights (getProbabilities model)) (vcount (getGraph model))))
      else (False, model))"
  by (simp add: step_def Let_def)

lemma getTypes_step:
  "getTypes (snd (step model)) =
     step_sweep model (step_weights (getProbabilities model)) (vcount (getGraph model))"
  by (simp add: step_cases setTypes_def)

lemma getType_step:
  assumes "i < vcount (getGraph model)"
  shows "getType (snd (step model)) i =
           max_element (vertex_scores model (step_weights (getProbabilities model)) i)"
  using assms by (simp add: getType_def getTypes_step step_sweep_eq)

section \<open>Weights and scores of the greedy step\<close>

lemma length_calc_probabilities: "length (calc_probabilities g k ts) = k"
  by (simp add: calc_probabilities_def)

lemma length_step_weights: "length (step_weights P) = length P"
  by (simp add: step_weights_def transform_def mat_sub_def)

lemma length_vertex_scores: "length (vertex_scores model W i) = length W"
  by (simp add: vertex_scores_def mat_vec_mult_def)

lemma map2_same:
  "map2 h (map f xs) (map g xs) = map (\<lambda>x. h (f x) (g x)) xs"
  by (induction xs) simp_all

lemma map2_map2_same:
  "map2 (map2 h) (map (map f) M) (map (map g) M) = map (map (\<lambda>x. h (f x) (g x))) M"
  by (induction M) (simp_all add: map2_same)

lemma step_weights_map:
  "step_weights P =
     map (map (\<lambda>p. d_sub (d_log (Fin p)) (log_1_minus_x (Fin p)))) P"
proof -
  have "step_weights P =
          map2 (map2 d_sub) (map (map (\<lambda>p. d_log (Fin p))) P)
            (map (map (\<lambda>p. log_1_minus_x (Fin p))) P)"
    by (simp add: step_weights_def transform_def mat_sub_def comp_def)
  then show ?thesis by (simp only: map2_map2_same)
qed

lemma step_weight_value:
  "d_sub (d_log (Fin p)) (log_1_minus_x (Fin p)) =
     (if p < 0 then NaN else if p = 0 then MInf else Fin (ln p - (1 - ln p)))"
  by (simp add: log_1_minus_x_def d_sub_def)

lemma step_weights_ordered:
  assumes "\<forall>row\<in>set P. \<forall>p\<in>set row. 0 \<le> p"
  shows "\<forall>row\<in>set (step_weights P). \<forall>w\<in>set row. w \<noteq> NaN \<and> w \<noteq> PInf"
proof (intro ballI)
  fix row w
  assume row: "row \<in> set (step_weights P)" and w: "w \<in> set row"
  from row obtain r where r: "r \<in> set P"
    and row_eq: "row = map (\<lambda>p. d_sub (d_log (Fin p)) (log_1_minus_x (Fin p))) r"
    unfolding step_weights_map by auto
  from w row_eq obtain p where p: "p \<in> set r"
    and w_eq: "w = d_sub (d_log (Fin p)) (log_1_minus_x (Fin p))"
    by auto
  have "0 \<le> p" using assms r p by blast
  then show "w \<noteq> NaN \<and> w \<noteq> PInf"
    unfolding w_eq step_weight_value by simp
qed

lemma count_update_nonneg:
  fixes cnt :: "real list"
  assumes "\<forall>x\<in>set cnt. 0 \<le> x"
  shows "\<forall>x\<in>set (cnt[t := cnt ! t + 1]). 0 \<le> x"
proof (cases "t < length cnt")
  case True
  then have "cnt ! t \<in> set cnt" by simp
  then have v: "0 \<le> cnt ! t + 1" using assms by fastforce
  have "set (cnt[t := cnt ! t + 1]) \<subseteq> insert (cnt ! t + 1) (set cnt)"
    by (rule set_update_subset_insert)
  with v assms show ?thesis by blast
next
  case False
  then have "length cnt \<le> t" by simp
  then have "cnt[t := cnt ! t + 1] = cnt" by (rule list_update_beyond)
  with assms show ?thesis by simp
qed

lemma count_fold_nonneg:
  fixes cnt :: "real list"
  assumes "\<forall>x\<in>set cnt. 0 \<le> x"
  shows "\<forall>x\<in>set (fold (\<lambda>it cnt. cnt[f it := cnt ! f it + 1]) neis cnt). 0 \<le> x"
  using assms
proof (induction neis arbitrary: cnt)
  case Nil
  then show ?case by simp
next
  case (Cons it neis)
  have "\<forall>x\<in>set (cnt[f it := cnt ! f it + 1]). 0 \<le> x"
    using Cons.prems by (rule count_update_nonneg)
  from Cons.IH[OF this] show ?case by simp
qed

lemma count_neighbor_types_nonneg:
  "\<forall>x\<in>set (count_neighbor_types model k neis). 0 \<le> x"
  unfolding count_neighbor_types_def by (rule count_fold_nonneg) simp

lemma inner_product_ordered:
  assumes "\<forall>w\<in>set row. w \<noteq> NaN \<and> w \<noteq> PInf" and "\<forall>x\<in>set v. 0 \<le> x"
  shows "inner_product row v \<noteq> NaN \<and> inner_product row v \<noteq> PInf"
proof -
  have step: "d_add y (d_mul (Fin x) w) \<noteq> NaN \<and> d_add y (d_mul (Fin x) w) \<noteq> PInf"
    if "y \<noteq> NaN" "y \<noteq> PInf" "w \<noteq> NaN" "w \<noteq> PInf" "0 < x" for y w x
    using that by (cases y; cases w) simp_all
  have "y \<noteq> NaN \<and> y \<noteq> PInf \<Longrightarrow> \<forall>w\<in>set row. w \<noteq> NaN \<and> w \<noteq> PInf \<Longrightarrow>
        \<forall>x\<in>set v. 0 \<le> x \<Longrightarrow>
        fold (\<lambda>p y. if snd p = 0 then y else d_add y (d_mul (Fin (snd p)) (fst p)))
          (zip row v) y \<noteq> NaN \<and>
        fold (\<lambda>p y. if snd p = 0 then y else d_add y (d_mul (Fin (snd p)) (fst p)))
          (zip row v) y \<noteq> PInf" for y
  proof (induction row arbitrary: v y)
    case Nil
    then show ?case by simp
  next
    case (Cons w row)
    show ?case
    proof (cases v)
      case Nil
      with Cons.prems show ?thesis by simp
    next
      case (Cons x v')
      show ?thesis
      proof (cases "x = 0")
        case True
        with Cons.IH[of y v'] Cons.prems Cons show ?thesis by simp
      next
        case False
        then have pos: "0 < x" using Cons.prems(3) Cons by simp
        have "d_add y (d_mul (Fin x) w) \<noteq> NaN \<and> d_add y (d_mul (Fin x) w) \<noteq> PInf"
          using Cons.prems(1,2) pos by (intro step) simp_all
        from Cons.IH[OF this, of v'] Cons.prems Cons False show ?thesis by simp
      qed
    qed
  qed
  then show ?thesis using assms by (simp add: inner_product_def)
qed

lemma vertex_scores_ordered:
  assumes "\<forall>row\<in>set (getProbabilities model). \<forall>p\<in>set row. 0 \<le> p"
  shows "\<forall>x\<in>set (vertex_scores model (step_weights (getProbabilities model)) i).
           x \<noteq> NaN \<and> x \<noteq> PInf"
proof
  fix x
  assume "x \<in> set (vertex_scores model (step_weights (getProbabilities model)) i)"
  then obtain row where row: "row \<in> set (step_weights (getProbabilities model))"
    and x: "x = inner_product row
                  (count_neighbor_types model (getNumTypes model) (neighbors (getGraph model) i))"
    by (auto simp: vertex_scores_def mat_vec_mult_def)
  have w: "\<forall>w\<in>set row. w \<noteq> NaN \<and> w \<noteq> PInf"
    using step_weights_ordered[OF assms] row by blast
  show "x \<noteq> NaN \<and> x \<noteq> PInf"
    unfolding x using w count_neighbor_types_nonneg by (rule inner_product_ordered)
qed

lemma step_no_change:
  assumes "\<not> fst (step model)"
  shows "step model = (False, model)"
  using assms by (simp add: step_cases split: if_splits)

lemma inner_product_zeros: "inner_product row (replicate k 0) = Fin 0"
proof -
  have "fold (\<lambda>p y. if snd p = 0 then y else d_add y (d_mul (Fin (snd p)) (fst p)))
          (zip row (replicate k (0::real))) y = y" for y
  proof (induction row arbitrary: k)
    case Nil
    then show ?case by simp
  next
    case (Cons x row)
    then show ?case by (cases k) simp_all
  qed
  then show ?thesis by (simp add: inner_product_def)
qed

lemma isolated_scores:
  assumes "neighbors (getGraph model) i = []"
  shows "\<forall>s\<in>set (vertex_scores model W i). s = Fin 0"
  using assms
  by (simp add: vertex_scores_def count_neighbor_types_def mat_vec_mult_def inner_product_zeros)

section \<open>Evaluating the examples\<close>

lemma upt_0_1: "[0..<1] = [0]"
  by code_simp

lemma upt_0_2: "[0..<2] = [0, 1]"
  by code_simp

lemma upt_Suc0_2: "[Suc 0..<2] = [Suc 0]"
  by code_simp

lemma upt_0_7: "[0..<7] = [0, 1, 2, 3, 4, 5, 6]"
  by code_simp

lemma path4_probs: "getProbabilities path4 = [[1/2]]"
proof -
  have "edge_count [[1], [0, 2], [1, 3], [2]] [0, 0, 0, 0] 0 0 = 3"
    and "pair_count [0, 0, 0, 0] 0 0 = 6"
    by code_simp+
  then show ?thesis
    by (simp add: path4_def mk_model_def calc_probabilities_def calc_probability_def upt_0_1)
qed

lemma path4_step: "step path4 = (False, path4)"
proof -
  have one: "max_element (vertex_scores path4 (step_weights (getProbabilities path4)) i) = 0" for i
  proof -
    let ?s = "vertex_scores path4 (step_weights (getProbabilities path4)) i"
    have len: "length ?s = 1"
      by (simp add: length_vertex_scores length_step_weights path4_probs)
    then have "?s \<noteq> []" by auto
    then have "max_element ?s < length ?s" by (rule max_element_props(1))
    with len show ?thesis by simp
  qed
  have "step_sweep path4 (step_weights (getProbabilities path4)) (vcount (getGraph path4))
          = getTypes path4"
    by (simp add: step_sweep_eq one) (simp add: path4_def mk_model_def vcount_def)
  then show ?thesis by (simp add: step_cases)
qed

lemma ex7_probs: "calc_probabilities ex7_graph 2 ex7_types = [[1/3, 1/12], [1/12, 2/3]]"
proof -
  have "edge_count ex7_graph ex7_types 0 0 = 2" "edge_count ex7_graph ex7_types 0 1 = 1"
    "edge_count ex7_graph ex7_types 1 0 = 1" "edge_count ex7_graph ex7_types 1 1 = 2"
    "pair_count ex7_types 0 0 = 6" "pair_count ex7_types 0 1 = 12"
    "pair_count ex7_types 1 0 = 12" "pair_count ex7_types 1 1 = 3"
    by code_simp+
  then show ?thesis
    by (simp add: calc_probabilities_def calc_probability_def upt_0_2)
qed

lemma ex7_fields:
  "getGraph ex7 = ex7_graph" "getNumTypes ex7 = 2" "getTypes ex7 = ex7_types"
  "getProbabilities ex7 = [[1/3, 1/12], [1/12, 2/3]]"
  by (simp_all add: ex7_def mk_model_def ex7_probs)

lemma ex7_vcount: "vcount (getGraph ex7) = 7"
  by (simp add: ex7_fields vcount_def ex7_graph_def)

lemma ln_order:
  "ln (1/12 :: real) < ln (1/3)" "ln (1/3 :: real) < ln (2/3)" "ln (2/3 :: real) < ln (11/12)"
  by simp_all

lemma ex7_counts:
  "count_neighbor_types ex7 2 (neighbors ex7_graph 0) = [1, 0]"
  "count_neighbor_types ex7 2 (neighbors ex7_graph 1) = [0, 2]"
  "count_neighbor_types ex7 2 (neighbors ex7_graph (Suc 0)) = [0, 2]"
  "count_neighbor_types ex7 2 (neighbors ex7_graph 2) = [1, 0]"
  "count_neighbor_types ex7 2 (neighbors ex7_graph 3) = [1, 1]"
  "count_neighbor_types ex7 2 (neighbors ex7_graph 4) = [1, 1]"
  "count_neighbor_types ex7 2 (neighbors ex7_graph 5) = [1, 0]"
  "count_neighbor_types ex7 2 (neighbors ex7_graph 6) = [0, 1]"
  by (simp_all add: count_neighbor_types_def neighbors_def ex7_graph_def ex7_def mk_model_def
      getType_def ex7_types_def numeral_2_eq_2)

lemmas ex7_score_simps =
  vertex_scores_def ex7_fields ex7_counts transform_def mat_sub_def mat_vec_mult_def
  inner_product_def max_element_def Let_def d_sub_def

lemma ex7_choice:
  "max_element (vertex_scores ex7 (step_weights (getProbabilities ex7)) 0) = 0"
  "max_element (vertex_scores ex7 (step_weights (getProbabilities ex7)) 1) = 1"
  "max_element (vertex_scores ex7 (step_weights (getProbabilities ex7)) 2) = 0"
  "max_element (vertex_scores ex7 (step_weights (getProbabilities ex7)) 3) = 1"
  "max_element (vertex_scores ex7 (step_weights (getProbabilities ex7)) 4) = 1"
  "max_element (vertex_scores ex7 (step_weights (getProbabilities ex7)) 5) = 0"
  "max_element (vertex_scores ex7 (step_weights (getProbabilities ex7)) 6) = 1"
  using ln_order by (simp_all add: ex7_score_simps step_weights_def log_1_minus_x_def)

lemma ex7_choice_log_odds:
  "max_element (vertex_scores ex7 (spec_weights (getProbabilities ex7)) 0) = 0"
  "max_element (vertex_scores ex7 (spec_weights (getProbabilities ex7)) 1) = 1"
  "max_element (vertex_scores ex7 (spec_weights (getProbabilities ex7)) 2) = 0"
  "max_element (vertex_scores ex7 (spec_weights (getProbabilities ex7)) 3) = 1"
  "max_element (vertex_scores ex7 (spec_weights (getProbabilities ex7)) 4) = 1"
  "max_element (vertex_scores ex7 (spec_weights (getProbabilities ex7)) 5) = 0"
  "max_element (vertex_scores ex7 (spec_weights (getProbabilities ex7)) 6) = 1"
  using ln_order
  by (simp_all add: ex7_score_simps spec_weights_def log_odds_def
      del: ln_less_cancel_iff ln_le_cancel_iff)

lemma ex7_sweep:
  "step_sweep ex7 (step_weights (getProbabilities ex7)) (vcount (getGraph ex7)) = ex7_new_types"
  by (simp only: step_sweep_eq ex7_vcount upt_0_7 list.map ex7_choice ex7_new_types_def)

lemma ex7_sweep_log_odds:
  "step_sweep ex7 (spec_weights (getProbabilities ex7)) (vcount (getGraph ex7)) = ex7_new_types"
  by (simp only: step_sweep_eq ex7_vcount upt_0_7 list.map ex7_choice_log_odds ex7_new_types_def)

lemma ex7_types_change: "ex7_new_types \<noteq> getTypes ex7"
  by (simp add: ex7_fields ex7_types_def ex7_new_types_def)

lemma ex7_step: "step ex7 = (True, setTypes ex7 ex7_new_types)"
  using ex7_types_change by (simp add: step_cases ex7_sweep)

lemma ex7_step_log_odds: "step_log_odds ex7 = (True, setTypes ex7 ex7_new_types)"
  using ex7_types_change by (simp add: step_log_odds_def Let_def ex7_sweep_log_odds)

lemma ex7_logL_before:
  "getLogLikelihood ex7 =
     (2 * ln (1/3) + 4 * ln (2/3)) + (ln (1/12) + 11 * ln (11/12)) + (2 * ln (2/3) + ln (1/3))"
proof -
  have "edge_count ex7_graph ex7_types 0 0 = 2" "edge_count ex7_graph ex7_types 0 1 = 1"
    "edge_count ex7_graph ex7_types (Suc 0) (Suc 0) = 2"
    "pair_count ex7_types 0 0 = 6" "pair_count ex7_types 0 1 = 12"
    "pair_count ex7_types (Suc 0) (Suc 0) = 3"
    by code_simp+
  then show ?thesis
    by (simp add: ex7_def mk_model_def calc_logLikelihood_def pair_logL_def
        calc_probability_def upt_0_2 upt_Suc0_2)
qed

lemma ex7_logL_after:
  "getLogLikelihood (setTypes ex7 ex7_new_types) =
     (ln (1/3) + 2 * ln (2/3)) + (ln (1/12) + 11 * ln (11/12)) + (3 * ln (1/2) + 3 * ln (1/2))"
proof -
  have "edge_count ex7_graph ex7_new_types 0 0 = 1" "edge_count ex7_graph ex7_new_types 0 1 = 1"
    "edge_count ex7_graph ex7_new_types (Suc 0) (Suc 0) = 3"
    "pair_count ex7_new_types 0 0 = 3" "pair_count ex7_new_types 0 1 = 12"
    "pair_count ex7_new_types (Suc 0) (Suc 0) = 6"
    by code_simp+
  then show ?thesis
    by (simp add: ex7_def mk_model_def setTypes_def calc_logLikelihood_def pair_logL_def
        calc_probability_def upt_0_2 upt_Suc0_2)
qed

lemma ln_27_32: "3 * ln (3::real) < 5 * ln 2"
proof -
  have a: "ln ((3::real) ^ 3) = 3 * ln 3" using ln_realpow[of "3::real" 3] by simp
  have b: "ln ((2::real) ^ 5) = 5 * ln 2" using ln_realpow[of "2::real" 5] by simp
  have "ln ((3::real) ^ 3) < ln (2 ^ 5)" by simp
  then show ?thesis unfolding a b .
qed

lemma ex7_logL_less:
  "getLogLikelihood (setTypes ex7 ex7_new_types) < getLogLikelihood ex7"
proof -
  have a: "ln (1/3 :: real) = - ln 3" "ln (2/3 :: real) = ln 2 - ln 3" "ln (1/2 :: real) = - ln 2"
    by (simp_all add: ln_div)
  show ?thesis
    using ln_27_32 by (simp add: ex7_logL_before ex7_logL_after a)
qed

text \<open>
  The decrease at \<open>ex7\<close> does not come from the weights the program computes: with the
  log-odds weights of the specification the sweep chooses the same blocks.
\<close>

lemma ex7_log_odds_decrease:
  "getLogLikelihood (snd (step_log_odds ex7)) < getLogLikelihood ex7"
  using ex7_logL_less by (simp add: ex7_step_log_odds)

lemma fix7_probs: "calc_probabilities fix7_graph 2 fix7_types = [[2/3, 1/12], [1/12, 2/3]]"
proof -
  have "edge_count fix7_graph fix7_types 0 0 = 2" "edge_count fix7_graph fix7_types 0 1 = 1"
    "edge_count fix7_graph fix7_types 1 0 = 1" "edge_count fix7_graph fix7_types 1 1 = 4"
    "pair_count fix7_types 0 0 = 3" "pair_count fix7_types 0 1 = 12"
    "pair_count fix7_types 1 0 = 12" "pair_count fix7_types 1 1 = 6"
    by code_simp+
  then show ?thesis
    by (simp add: calc_probabilities_def calc_probability_def upt_0_2)
qed

lemma fix7_fields:
  "getGraph fix7 = fix7_graph" "getNumTypes fix7 = 2" "getTypes fix7 = fix7_types"
  "getProbabilities fix7 = [[2/3, 1/12], [1/12, 2/3]]"
  by (simp_all add: fix7_def mk_model_def fix7_probs)

lemma fix7_vcount: "vcount (getGraph fix7) = 7"
  by (simp add: fix7_fields vcount_def fix7_graph_def)

lemma fix7_counts:
  "count_neighbor_types fix7 2 (neighbors fix7_graph 0) = [1, 0]"
  "count_neighbor_types fix7 2 (neighbors fix7_graph 1) = [2, 0]"
  "count_neighbor_types fix7 2 (neighbors fix7_graph (Suc 0)) = [2, 0]"
  "count_neighbor_types fix7 2 (neighbors fix7_graph 2) = [1, 1]"
  "count_neighbor_types fix7 2 (neighbors fix7_graph 3) = [1, 2]"
  "count_neighbor_types fix7 2 (neighbors fix7_graph 4) = [0, 2]"
  "count_neighbor_types fix7 2 (neighbors fix7_graph 5) = [0, 3]"
  "count_neighbor_types fix7 2 (neighbors fix7_graph 6) = [0, 1]"
  by (simp_all add: count_neighbor_types_def neighbors_def fix7_graph_def fix7_def mk_model_def
      getType_def fix7_types_def numeral_2_eq_2)

lemma fix7_choice:
  "max_element (vertex_scores fix7 (step_weights (getProbabilities fix7)) 0) = 0"
  "max_element (vertex_scores fix7 (step_weights (getProbabilities fix7)) 1) = 0"
  "max_element (vertex_scores fix7 (step_weights (getProbabilities fix7)) 2) = 0"
  "max_element (vertex_scores fix7 (step_weights (getProbabilities fix7)) 3) = 1"
  "max_element (vertex_scores fix7 (step_weights (getProbabilities fix7)) 4) = 1"
  "max_element (vertex_scores fix7 (step_weights (getProbabilities fix7)) 5) = 1"
  "max_element (vertex_scores fix7 (step_weights (getProbabilities fix7)) 6) = 1"
  by (simp_all add: vertex_scores_def fix7_fields fix7_counts transform_def mat_sub_def
      mat_vec_mult_def inner_product_def max_element_def Let_def step_weights_def
      log_1_minus_x_def d_sub_def)

lemma fix7_step: "step fix7 = (False, fix7)"
proof -
  have "step_sweep fix7 (step_weights (getProbabilities fix7)) (vcount (getGraph fix7))
          = [0, 0, 0, 1, 1, 1, 1]"
    by (simp only: step_sweep_eq fix7_vcount upt_0_7 list.map fix7_choice)
  moreover have "getTypes fix7 = [0, 0, 0, 1, 1, 1, 1]"
    by (simp add: fix7_fields fix7_types_def)
  ultimately show ?thesis by (simp add: step_cases)
qed

lemma upt_0_10: "[0..<10] = [0, 1, 2, 3, 4, 5, 6, 7, 8, 9]"
  by code_simp

lemma two_rings_probs:
  "calc_probabilities two_rings_graph 2 two_rings_types = [[1/2, 0], [0, 1/2]]"
proof -
  have "edge_count two_rings_graph two_rings_types 0 0 = 5"
    "edge_count two_rings_graph two_rings_types 0 1 = 0"
    "edge_count two_rings_graph two_rings_types 1 0 = 0"
    "edge_count two_rings_graph two_rings_types 1 1 = 5"
    "pair_count two_rings_types 0 0 = 10" "pair_count two_rings_types 0 1 = 25"
    "pair_count two_rings_types 1 0 = 25" "pair_count two_rings_types 1 1 = 10"
    by code_simp+
  then show ?thesis
    by (simp add: calc_probabilities_def calc_probability_def upt_0_2)
qed

lemma two_rings_fields:
  "getGraph two_rings = two_rings_graph" "getNumTypes two_rings = 2"
  "getTypes two_rings = two_rings_types"
  "getProbabilities two_rings = [[1/2, 0], [0, 1/2]]"
  by (simp_all add: two_rings_def mk_model_def two_rings_probs)

text \<open>
  With a probability of 0 between the rings the weight between them is minus infinity.
\<close>

lemma two_rings_weights:
  "step_weights (getProbabilities two_rings) =
     [[Fin (ln (1/2) - (1 - ln (1/2))), MInf], [MInf, Fin (ln (1/2) - (1 - ln (1/2)))]]"
  by (simp add: two_rings_fields step_weights_map log_1_minus_x_def d_sub_def)

lemma two_rings_vcount: "vcount (getGraph two_rings) = 10"
  by (simp add: two_rings_fields vcount_def two_rings_graph_def)

lemma two_rings_counts:
  "count_neighbor_types two_rings 2 (neighbors two_rings_graph 0) = [2, 0]"
  "count_neighbor_types two_rings 2 (neighbors two_rings_graph 1) = [2, 0]"
  "count_neighbor_types two_rings 2 (neighbors two_rings_graph (Suc 0)) = [2, 0]"
  "count_neighbor_types two_rings 2 (neighbors two_rings_graph 2) = [2, 0]"
  "count_neighbor_types two_rings 2 (neighbors two_rings_graph 3) = [2, 0]"
  "count_neighbor_types two_rings 2 (neighbors two_rings_graph 4) = [2, 0]"
  "count_neighbor_types two_rings 2 (neighbors two_rings_graph 5) = [0, 2]"
  "count_neighbor_types two_rings 2 (neighbors two_rings_graph 6) = [0, 2]"
  "count_neighbor_types two_rings 2 (neighbors two_rings_graph 7) = [0, 2]"
  "count_neighbor_types two_rings 2 (neighbors two_rings_graph 8) = [0, 2]"
  "count_neighbor_types two_rings 2 (neighbors two_rings_graph 9) = [0, 2]"
  by (simp_all add: count_neighbor_types_def neighbors_def two_rings_graph_def two_rings_def
      mk_model_def getType_def two_rings_types_def numeral_2_eq_2)

lemma two_rings_choice:
  "max_element (vertex_scores two_rings (step_weights (getProbabilities two_rings)) 0) = 0"
  "max_element (vertex_scores two_rings (step_weights (getProbabilities two_rings)) 1) = 0"
  "max_element (vertex_scores two_rings (step_weights (getProbabilities two_rings)) 2) = 0"
  "max_element (vertex_scores two_rings (step_weights (getProbabilities two_rings)) 3) = 0"
  "max_element (vertex_scores two_rings (step_weights (getProbabilities two_rings)) 4) = 0"
  "max_element (vertex_scores two_rings (step_weights (getProbabilities two_rings)) 5) = 1"
  "max_element (vertex_scores two_rings (step_weights (getProbabilities two_rings)) 6) = 1"
  "max_element (vertex_scores two_rings (step_weights (getProbabilities two_rings)) 7) = 1"
  "max_element (vertex_scores two_rings (step_weights (getProbabilities two_rings)) 8) = 1"
  "max_element (vertex_scores two_rings (step_weights (getProbabilities two_rings)) 9) = 1"
  unfolding two_rings_weights
  by (simp_all add: vertex_scores_def two_rings_fields(1,2) two_rings_counts mat_vec_mult_def
      inner_product_def max_element_def Let_def)

text \<open>
  The first assertion of \<open>test_two_rings\<close>: the partition by rings is a fixed point.
\<close>

lemma two_rings_step: "step two_rings = (False, two_rings)"
proof -
  have "step_sweep two_rings (step_weights (getProbabilities two_rings))
          (vcount (getGraph two_rings)) = [0, 0, 0, 0, 0, 1, 1, 1, 1, 1]"
    by (simp only: step_sweep_eq two_rings_vcount upt_0_10 list.map two_rings_choice)
  moreover have "getTypes two_rings = [0, 0, 0, 0, 0, 1, 1, 1, 1, 1]"
    by (simp add: two_rings_fields two_rings_types_def)
  ultimately show ?thesis by (simp add: step_cases)
qed

lemma two_rings_changed_probs:
  "calc_probabilities two_rings_graph 2 two_rings_changed_types
     = [[1/2, 1/12], [1/12, 1/3]]"
proof -
  have "edge_count two_rings_graph two_rings_changed_types 0 0 = 3"
    "edge_count two_rings_graph two_rings_changed_types 0 1 = 2"
    "edge_count two_rings_graph two_rings_changed_types 1 0 = 2"
    "edge_count two_rings_graph two_rings_changed_types 1 1 = 5"
    "pair_count two_rings_changed_types 0 0 = 6"
    "pair_count two_rings_changed_types 0 1 = 24"
    "pair_count two_rings_changed_types 1 0 = 24"
    "pair_count two_rings_changed_types 1 1 = 15"
    by code_simp+
  then show ?thesis
    by (simp add: calc_probabilities_def calc_probability_def upt_0_2)
qed

lemma two_rings_changed_fields:
  "getGraph two_rings_changed = two_rings_graph" "getNumTypes two_rings_changed = 2"
  "getTypes two_rings_changed = two_rings_changed_types"
  "getProbabilities two_rings_changed = [[1/2, 1/12], [1/12, 1/3]]"
  by (simp_all add: two_rings_changed_def mk_model_def two_rings_changed_probs)

lemma two_rings_changed_vcount: "vcount (getGraph two_rings_changed) = 10"
  by (simp add: two_rings_changed_fields vcount_def two_rings_graph_def)

lemma two_rings_changed_counts:
  "count_neighbor_types two_rings_changed 2 (neighbors two_rings_graph 0) = [2, 0]"
  "count_neighbor_types two_rings_changed 2 (neighbors two_rings_graph 1) = [1, 1]"
  "count_neighbor_types two_rings_changed 2 (neighbors two_rings_graph (Suc 0)) = [1, 1]"
  "count_neighbor_types two_rings_changed 2 (neighbors two_rings_graph 2) = [2, 0]"
  "count_neighbor_types two_rings_changed 2 (neighbors two_rings_graph 3) = [2, 0]"
  "count_neighbor_types two_rings_changed 2 (neighbors two_rings_graph 4) = [1, 1]"
  "count_neighbor_types two_rings_changed 2 (neighbors two_rings_graph 5) = [0, 2]"
  "count_neighbor_types two_rings_changed 2 (neighbors two_rings_graph 6) = [0, 2]"
  "count_neighbor_types two_rings_changed 2 (neighbors two_rings_graph 7) = [0, 2]"
  "count_neighbor_types two_rings_changed 2 (neighbors two_rings_graph 8) = [0, 2]"
  "count_neighbor_types two_rings_changed 2 (neighbors two_rings_graph 9) = [0, 2]"
  by (simp_all add: count_neighbor_types_def neighbors_def two_rings_graph_def
      two_rings_changed_def mk_model_def getType_def two_rings_changed_types_def
      numeral_2_eq_2)

lemma two_rings_changed_choice:
  "max_element (vertex_scores two_rings_changed
     (step_weights (getProbabilities two_rings_changed)) 0) = 0"
  "max_element (vertex_scores two_rings_changed
     (step_weights (getProbabilities two_rings_changed)) 1) = 0"
  "max_element (vertex_scores two_rings_changed
     (step_weights (getProbabilities two_rings_changed)) 2) = 0"
  "max_element (vertex_scores two_rings_changed
     (step_weights (getProbabilities two_rings_changed)) 3) = 0"
  "max_element (vertex_scores two_rings_changed
     (step_weights (getProbabilities two_rings_changed)) 4) = 0"
  "max_element (vertex_scores two_rings_changed
     (step_weights (getProbabilities two_rings_changed)) 5) = 1"
  "max_element (vertex_scores two_rings_changed
     (step_weights (getProbabilities two_rings_changed)) 6) = 1"
  "max_element (vertex_scores two_rings_changed
     (step_weights (getProbabilities two_rings_changed)) 7) = 1"
  "max_element (vertex_scores two_rings_changed
     (step_weights (getProbabilities two_rings_changed)) 8) = 1"
  "max_element (vertex_scores two_rings_changed
     (step_weights (getProbabilities two_rings_changed)) 9) = 1"
  by (simp_all add: vertex_scores_def two_rings_changed_fields two_rings_changed_counts
      step_weights_map log_1_minus_x_def d_sub_def mat_vec_mult_def inner_product_def
      max_element_def Let_def)

lemma two_rings_changed_step: "step two_rings_changed = (True, two_rings)"
proof -
  have "step_sweep two_rings_changed (step_weights (getProbabilities two_rings_changed))
          (vcount (getGraph two_rings_changed)) = two_rings_types"
    by (simp only: step_sweep_eq two_rings_changed_vcount upt_0_10 list.map
        two_rings_changed_choice two_rings_types_def)
  moreover have "getTypes two_rings_changed \<noteq> two_rings_types"
    by (simp add: two_rings_changed_fields two_rings_types_def two_rings_changed_types_def)
  moreover have "setTypes two_rings_changed two_rings_types = two_rings"
    by (simp add: setTypes_def two_rings_changed_def two_rings_def mk_model_def)
  ultimately show ?thesis by (simp add: step_cases)
qed

text \<open>
  The second assertion of \<open>test_two_rings\<close>: from the changed model the optimizer comes
  back to the partition by rings.
\<close>

lemma two_rings_optimize: "optimize two_rings_changed = Some two_rings"
  by (subst optimize.simps, simp add: two_rings_changed_step, subst optimize.simps)
    (simp add: two_rings_step)

lemma iso7_probs: "getProbabilities iso7 = [[2/3, 1/12], [1/12, 1/6]]"
proof -
  have "edge_count iso7_graph iso7_types 0 0 = 2" "edge_count iso7_graph iso7_types 0 1 = 1"
    "edge_count iso7_graph iso7_types 1 0 = 1" "edge_count iso7_graph iso7_types 1 1 = 1"
    "pair_count iso7_types 0 0 = 3" "pair_count iso7_types 0 1 = 12"
    "pair_count iso7_types 1 0 = 12" "pair_count iso7_types 1 1 = 6"
    by code_simp+
  then show ?thesis
    by (simp add: iso7_def mk_model_def calc_probabilities_def calc_probability_def upt_0_2)
qed

lemma iso7_vertex6:
  "6 < vcount (getGraph iso7)" "neighbors (getGraph iso7) 6 = []"
  by (simp_all add: iso7_def mk_model_def vcount_def neighbors_def iso7_graph_def)

lemma iso7_scores6:
  "vertex_scores iso7 (step_weights (getProbabilities iso7)) 6 = [Fin 0, Fin 0]"
proof -
  let ?s = "vertex_scores iso7 (step_weights (getProbabilities iso7)) 6"
  have len: "length ?s = 2"
    by (simp add: length_vertex_scores length_step_weights iso7_probs)
  have z: "\<forall>s\<in>set ?s. s = Fin 0" using iso7_vertex6(2) by (rule isolated_scores)
  from len obtain a b where ab: "?s = [a, b]"
    by (metis (no_types, lifting) One_nat_def Suc_1 length_0_conv length_Suc_conv)
  with z show ?thesis by simp
qed

section \<open>Properties of the greedy step\<close>

text \<open>
  Claim C1. The specification says that the score of a candidate block is the inner
  product of the neighbour counts with the log-odds row \<open>log P - log (1 - P)\<close>. The
  program's helper \<open>log_1_minus_x\<close> returns \<open>1 - log x\<close>, so the weights are
  \<open>2 log P - 1\<close>. On the path with four vertices in one block (probability one half)
  the score of vertex 0 is \<open>- 2 ln 2 - 1\<close>, where the log-odds give 0.
\<close>

theorem step_score_not_log_odds:
  "log_1_minus_x (Fin (1/2)) = Fin (1 + ln 2) \<and>
   d_log (d_sub (Fin 1) (Fin (1/2))) = Fin (- ln 2) \<and>
   vertex_scores path4 (step_weights (getProbabilities path4)) 0 = [Fin (- 2 * ln 2 - 1)] \<and>
   vertex_scores path4 (spec_weights (getProbabilities path4)) 0 = [Fin 0]"
  unfolding path4_probs
  by (simp add: path4_def mk_model_def vertex_scores_def step_weights_def spec_weights_def
      transform_def mat_sub_def mat_vec_mult_def inner_product_def count_neighbor_types_def
      neighbors_def getType_def log_1_minus_x_def log_odds_def d_sub_def ln_div)

text \<open>
  Claim C2, as stated: no step decreases the log-likelihood. It fails at \<open>ex7\<close>, a
  model whose probabilities all lie strictly between 0 and 1: the step moves vertex 3
  into the second block and the log-likelihood drops by \<open>10 ln 2 - 6 ln 3\<close>.
\<close>

theorem step_logL_decrease_counterexample:
  "getLogLikelihood (snd (step ex7)) < getLogLikelihood ex7"
  using ex7_logL_less by (simp add: ex7_step)

text \<open>
  Claim C2, amended. What a step never worsens is the score it maximises: for every
  vertex, no candidate block has a score, computed from the assignment and the
  probabilities at the start of the call, above the score of the block the step
  assigns; and when no probability is negative, so that every score is a number or
  minus infinity, the score of the assigned block is at least the score of every
  candidate block, the vertex's previous block among them.
\<close>

theorem step_score_never_worse:
  assumes "i < vcount (getGraph model)"
    and "c < length (vertex_scores model (step_weights (getProbabilities model)) i)"
  shows "\<not> d_less
             (vertex_scores model (step_weights (getProbabilities model)) i
                ! getType (snd (step model)) i)
             (vertex_scores model (step_weights (getProbabilities model)) i ! c) \<and>
         ((\<forall>row\<in>set (getProbabilities model). \<forall>p\<in>set row. 0 \<le> p) \<longrightarrow>
          d_le (vertex_scores model (step_weights (getProbabilities model)) i ! c)
            (vertex_scores model (step_weights (getProbabilities model)) i
               ! getType (snd (step model)) i))"
proof -
  let ?s = "vertex_scores model (step_weights (getProbabilities model)) i"
  have ne: "?s \<noteq> []" using assms(2) by auto
  have t: "getType (snd (step model)) i = max_element ?s" using assms(1) by (rule getType_step)
  have nl: "\<not> d_less (?s ! max_element ?s) (?s ! c)"
    using max_element_props(2)[OF ne] assms(2) by blast
  have "d_le (?s ! c) (?s ! max_element ?s)"
    if nonneg: "\<forall>row\<in>set (getProbabilities model). \<forall>p\<in>set row. 0 \<le> p"
  proof -
    have o: "\<forall>x\<in>set ?s. x \<noteq> NaN \<and> x \<noteq> PInf" using nonneg by (rule vertex_scores_ordered)
    have "?s ! c \<in> set ?s" using assms(2) by simp
    moreover have "?s ! max_element ?s \<in> set ?s" using max_element_props(1)[OF ne] by simp
    ultimately show ?thesis using o nl d_not_less_le by blast
  qed
  with nl show ?thesis unfolding t by blast
qed

theorem step_score_never_worse_witness:
  "3 < vcount (getGraph ex7) \<and>
   getType ex7 3 < length (vertex_scores ex7 (step_weights (getProbabilities ex7)) 3) \<and>
   getProbabilities ex7 = [[1/3, 1/12], [1/12, 2/3]] \<and>
   d_le (vertex_scores ex7 (step_weights (getProbabilities ex7)) 3 ! getType ex7 3)
     (vertex_scores ex7 (step_weights (getProbabilities ex7)) 3 ! getType (snd (step ex7)) 3)"
proof -
  have a: "3 < vcount (getGraph ex7)" by (simp add: ex7_vcount)
  have b: "getType ex7 3 < length (vertex_scores ex7 (step_weights (getProbabilities ex7)) 3)"
    by (simp add: length_vertex_scores length_step_weights ex7_fields getType_def ex7_types_def)
  have n: "\<forall>row\<in>set (getProbabilities ex7). \<forall>p\<in>set row. 0 \<le> p"
    by (simp add: ex7_fields)
  from a b n step_score_never_worse[OF a b] ex7_fields(4) show ?thesis by blast
qed

text \<open>
  Claim C3. The step works on a frozen snapshot: the assignment it leaves is, vertex by
  vertex, the first-maximum block of the scores computed from the model as it was at
  the start of the call. The sweep writes into the buffer only; the buffer is committed
  once, after the sweep.
\<close>

theorem step_frozen_snapshot:
  "getTypes (snd (step model)) =
     map (\<lambda>i. max_element (vertex_scores model (step_weights (getProbabilities model)) i))
       [0..<vcount (getGraph model)]"
  by (simp add: getTypes_step step_sweep_eq)

text \<open>
  Claim C5. On a model whose assignment has one entry per vertex, the step returns true
  if and only if the block of some vertex after the call differs from its block before
  the call; when it returns false the whole model, derived state included, is the one
  it was given.
\<close>

theorem step_returns_changed:
  assumes "length (getTypes model) = vcount (getGraph model)"
  shows "(fst (step model) \<longleftrightarrow>
            (\<exists>i<vcount (getGraph model). getType (snd (step model)) i \<noteq> getType model i)) \<and>
         (\<not> fst (step model) \<longrightarrow> snd (step model) = model)"
proof -
  let ?new = "step_sweep model (step_weights (getProbabilities model)) (vcount (getGraph model))"
  have len: "length ?new = length (getTypes model)"
    using assms by (simp add: step_sweep_eq)
  have "(?new \<noteq> getTypes model) = (\<exists>i<vcount (getGraph model). ?new ! i \<noteq> getTypes model ! i)"
    using len assms by (auto simp: list_eq_iff_nth_eq)
  then show ?thesis
    by (simp add: step_cases getType_def setTypes_def)
qed

theorem step_returns_changed_witness:
  "length (getTypes ex7) = vcount (getGraph ex7) \<and> fst (step ex7) \<and>
   (\<exists>i<vcount (getGraph ex7). getType (snd (step ex7)) i \<noteq> getType ex7 i) \<and>
   length (getTypes path4) = vcount (getGraph path4) \<and> \<not> fst (step path4) \<and>
   snd (step path4) = path4"
proof -
  have a: "length (getTypes ex7) = vcount (getGraph ex7)"
    unfolding ex7_vcount by (simp add: ex7_fields ex7_types_def)
  have b: "length (getTypes path4) = vcount (getGraph path4)"
    by (simp add: path4_def mk_model_def vcount_def)
  have c: "fst (step ex7)" by (simp add: ex7_step)
  have d: "\<not> fst (step path4)" by (simp add: path4_step)
  from step_returns_changed[OF a] step_returns_changed[OF b] a b c d show ?thesis by blast
qed

text \<open>
  Claim C6. Whenever \<open>optimize\<close> returns, it returns a model on which one more step
  reports no change and leaves the model as it is.
\<close>

theorem optimize_fixed_point:
  assumes "optimize model = Some model'"
  shows "step model' = (False, model')"
  using assms
proof (induction model model' rule: optimize.raw_induct[rotated 1, consumes 1])
  case (1 opt model res)
  show ?case
  proof (cases "fst (step model)")
    case True
    with 1 show ?thesis by simp
  next
    case False
    with 1(2) have "res = snd (step model)" by simp
    moreover have "step model = (False, model)" using False by (rule step_no_change)
    ultimately show ?thesis by simp
  qed
qed

theorem optimize_fixed_point_witness:
  "optimize fix7 = Some fix7 \<and> step fix7 = (False, fix7) \<and>
   optimize two_rings_changed = Some two_rings \<and> step two_rings = (False, two_rings)"
proof -
  have a: "optimize fix7 = Some fix7"
    by (subst optimize.simps) (simp add: fix7_step)
  from a optimize_fixed_point[OF a] two_rings_optimize
    optimize_fixed_point[OF two_rings_optimize]
  show ?thesis by simp
qed

text \<open>
  Claim C7. Ties go to the lowest index: if candidate block \<open>c\<close> attains the maximal
  score of a vertex, then the block the step assigns to the vertex is not above \<open>c\<close>
  and has the same, maximal, score.
\<close>

theorem step_first_maximum:
  assumes "i < vcount (getGraph model)"
    and "c < length (vertex_scores model (step_weights (getProbabilities model)) i)"
    and "\<forall>x\<in>set (vertex_scores model (step_weights (getProbabilities model)) i).
           d_le x (vertex_scores model (step_weights (getProbabilities model)) i ! c)"
  shows "getType (snd (step model)) i \<le> c \<and>
         vertex_scores model (step_weights (getProbabilities model)) i
             ! getType (snd (step model)) i
           = vertex_scores model (step_weights (getProbabilities model)) i ! c"
proof -
  let ?s = "vertex_scores model (step_weights (getProbabilities model)) i"
  have ne: "?s \<noteq> []" using assms(2) by auto
  have t: "getType (snd (step model)) i = max_element ?s" using assms(1) by (rule getType_step)
  have nn: "\<forall>x\<in>set ?s. x \<noteq> NaN" using assms(3) d_le_not_NaN(1) by blast
  have m: "?s ! max_element ?s \<in> set ?s" using max_element_props(1)[OF ne] by simp
  have cm: "?s ! c \<in> set ?s" using assms(2) by simp
  have le: "d_le (?s ! max_element ?s) (?s ! c)" using assms(3) m by blast
  have "\<not> d_less (?s ! max_element ?s) (?s ! c)"
    using max_element_props(2)[OF ne] assms(2) by blast
  then have ge: "d_le (?s ! c) (?s ! max_element ?s)"
    using nn m cm d_not_less_le by blast
  have eq: "?s ! max_element ?s = ?s ! c" using le ge by (rule d_le_antisym)
  have "\<not> c < max_element ?s"
  proof
    assume "c < max_element ?s"
    then have "d_less (?s ! c) (?s ! max_element ?s)" using max_element_first[OF nn] by blast
    then have "\<not> d_le (?s ! max_element ?s) (?s ! c)" by (rule d_less_not_le)
    with le show False by simp
  qed
  with eq t show ?thesis by simp
qed

theorem step_first_maximum_witness:
  "vertex_scores iso7 (step_weights (getProbabilities iso7)) 6 = [Fin 0, Fin 0] \<and>
   getType iso7 6 = 1 \<and> getType (snd (step iso7)) 6 = 0"
proof -
  let ?s = "vertex_scores iso7 (step_weights (getProbabilities iso7)) 6"
  have a: "0 < length ?s" by (simp add: iso7_scores6)
  have b: "\<forall>x\<in>set ?s. d_le x (?s ! 0)" by (simp add: iso7_scores6)
  have c: "getType iso7 6 = 1" by (simp add: getType_def iso7_def mk_model_def iso7_types_def)
  from step_first_maximum[OF iso7_vertex6(1) a b] c iso7_scores6 show ?thesis by simp
qed

text \<open>
  Claim C10. In a model whose probabilities all lie strictly between 0 and 1, a vertex
  without neighbours has the score 0 for every candidate block, and the step assigns
  it to block 0.
\<close>

theorem step_isolated_vertex:
  assumes "\<forall>row\<in>set (getProbabilities model). \<forall>p\<in>set row. 0 < p \<and> p < 1"
    and "i < vcount (getGraph model)"
    and "neighbors (getGraph model) i = []"
  shows "(\<forall>s\<in>set (vertex_scores model (step_weights (getProbabilities model)) i).
            s = Fin 0) \<and>
         getType (snd (step model)) i = 0"
proof -
  let ?s = "vertex_scores model (step_weights (getProbabilities model)) i"
  have z: "\<forall>s\<in>set ?s. s = Fin 0" using assms(3) by (rule isolated_scores)
  then have "max_element ?s = 0" by (rule max_element_all_equal)
  with z assms(2) show ?thesis by (simp add: getType_step)
qed

theorem step_isolated_vertex_witness:
  "getProbabilities iso7 = [[2/3, 1/12], [1/12, 1/6]] \<and> 6 < vcount (getGraph iso7) \<and>
   neighbors (getGraph iso7) 6 = [] \<and> getType iso7 6 = 1 \<and> getType (snd (step iso7)) 6 = 0"
proof -
  have a: "\<forall>row\<in>set (getProbabilities iso7). \<forall>p\<in>set row. 0 < p \<and> p < 1"
    by (simp add: iso7_probs)
  have c: "getType iso7 6 = 1" by (simp add: getType_def iso7_def mk_model_def iso7_types_def)
  from step_isolated_vertex[OF a iso7_vertex6] iso7_probs iso7_vertex6 c show ?thesis by simp
qed

section \<open>Properties of the application\<close>

lemma sweep_cond: "(real k \<le> sqrt (real n)) = (k \<le> nat \<lfloor>sqrt (real n)\<rfloor>)"
proof -
  have "(k \<le> nat \<lfloor>sqrt (real n)\<rfloor>) = (int k \<le> \<lfloor>sqrt (real n)\<rfloor>)"
    by (simp add: le_nat_iff)
  also have "\<dots> = (real k \<le> sqrt (real n))"
    by (simp add: le_floor_iff)
  finally show ?thesis by simp
qed

lemma sweep_loop_fit_candidates:
  "sweep_loop env args aic bic n k app bestAIC bestBIC bestModel =
     (case fit_candidates env args [k..<Suc (nat \<lfloor>sqrt (real n)\<rfloor>)] app of
        None \<Rightarrow> None
      | Some (Inl e) \<Rightarrow> Some (Inl e)
      | Some (Inr states) \<Rightarrow>
          (case fold (sweep_select aic bic) (map m_bestModel states)
                  (bestAIC, bestBIC, bestModel) of
             (a, b, m) \<Rightarrow> Some (Inr (last (app # states), a, b, m))))"
proof (induction env args aic bic n k app bestAIC bestBIC bestModel rule: sweep_loop.induct)
  case (1 env args aic bic n k app bestAIC bestBIC bestModel)
  show ?case
  proof (cases "real k \<le> sqrt (real n)")
    case False
    then have "[k..<Suc (nat \<lfloor>sqrt (real n)\<rfloor>)] = []" by (simp add: sweep_cond)
    with False show ?thesis by (subst sweep_loop.simps) simp
  next
    case True
    then have up: "[k..<Suc (nat \<lfloor>sqrt (real n)\<rfloor>)] = k # [Suc k..<Suc (nat \<lfloor>sqrt (real n)\<rfloor>)]"
      by (simp add: sweep_cond upt_conv_Cons)
    show ?thesis
    proof (cases "fitForGivenGroupCount env args k app")
      case None
      with True show ?thesis by (subst sweep_loop.simps, subst up) simp
    next
      case (Some r)
      show ?thesis
      proof (cases r)
        case (Inl e)
        with Some True show ?thesis by (subst sweep_loop.simps, subst up) simp
      next
        case (Inr app')
        note IH = 1[OF True Some Inr]
        show ?thesis
          apply (subst sweep_loop.simps)
          apply (simp only: True if_True Some Inr option.case sum.case up fit_candidates.simps IH)
          apply (simp add: sweep_select_def split: option.splits sum.splits prod.splits)
          done
      qed
    qed
  qed
qed




lemma dumpBestState_fields:
  "m_pModel (dumpBestState a) = m_pModel a"
  "m_bestModel (dumpBestState a) = m_bestModel a"
  "m_bestLogL (dumpBestState a) = m_bestLogL a"
  by (simp_all add: dumpBestState_def split: option.splits)

lemma runBlock_body_best:
  assumes "runBlock_body env args (app, samples) = Inr (app', samples')"
  shows "\<exists>model'. m_pModel app' = Some model' \<and>
           samples' = samples @ [getLogLikelihood model'] \<and>
           (if m_bestLogL app < getLogLikelihood model'
            then m_bestModel app' = model' \<and> m_bestLogL app' = getLogLikelihood model'
            else m_bestModel app' = m_bestModel app \<and> m_bestLogL app' = m_bestLogL app)"
proof -
  obtain model where pm: "m_pModel app = Some model"
    using assms by (cases "m_pModel app") (simp_all add: runBlock_body_def)
  define model' where "model' = snd (mcmc_step env (m_mcmc app) model)"
  define a1 where "a1 = app\<lparr>m_mcmc := fst (mcmc_step env (m_mcmc app) model), m_pModel := Some model'\<rparr>"
  define a2 where "a2 = (if m_bestLogL a1 < getLogLikelihood model'
                         then a1\<lparr>m_bestModel := model', m_bestLogL := getLogLikelihood model'\<rparr>
                         else a1)"
  have body: "runBlock_body env args (app, samples) =
                (if logPeriod args = 0 then Inl DivisionByZero
                 else Inr (if m_dumpBestStateFlag a2 then dumpBestState a2 else a2,
                           samples @ [getLogLikelihood model']))"
    by (simp add: runBlock_body_def pm Let_def a2_def a1_def model'_def)
  from assms have lp: "logPeriod args \<noteq> 0" unfolding body by (cases "logPeriod args = 0") simp_all
  from assms lp have app': "app' = (if m_dumpBestStateFlag a2 then dumpBestState a2 else a2)"
    and samples': "samples' = samples @ [getLogLikelihood model']"
    unfolding body by simp_all
  have f: "m_pModel app' = m_pModel a2" "m_bestModel app' = m_bestModel a2"
    "m_bestLogL app' = m_bestLogL a2"
    unfolding app' by (simp_all add: dumpBestState_fields)
  have g: "m_pModel a2 = Some model'" "m_bestLogL a1 = m_bestLogL app"
    "m_bestModel a1 = m_bestModel app"
    by (simp_all add: a2_def a1_def)
  have h: "if m_bestLogL app < getLogLikelihood model'
           then m_bestModel a2 = model' \<and> m_bestLogL a2 = getLogLikelihood model'
           else m_bestModel a2 = m_bestModel app \<and> m_bestLogL a2 = m_bestLogL app"
    using g(2,3) by (simp add: a2_def)
  from f g(1) h samples' show ?thesis by simp
qed




lemma converge_loop_chain:
  assumes "converge_loop env args crit app = Some (Inr app')"
  shows "chain_converges env args crit app app'"
  using assms
proof (induction env args crit app "Inr app' :: error + 'a BlockmodelFittingApp"
    rule: converge_loop.raw_induct[rotated 1, consumes 1])
  case (1 loop env args crit app)
  from 1(2) obtain s where rb: "runBlock env args (blockSize args) app = Inr s"
    by (auto split: sum.splits)
  then have rb': "runBlock env args (blockSize args) app = Inr (fst s, snd s)" by simp
  show ?case
  proof (cases "fst (check env crit (snd s))")
    case True
    with 1(2) rb have e: "app' = fst s" by simp
    have "chain_converges env args crit app (fst s)"
      using rb' True by (rule chain_converges.converged)
    then show ?thesis unfolding e .
  next
    case False
    with 1(2) rb have "loop env args (snd (check env crit (snd s))) (fst s) = Some (Inr app')"
      by simp
    then have ch: "chain_converges env args (snd (check env crit (snd s))) (fst s) app'"
      by (rule 1(1))
    show ?thesis using rb' False ch by (rule chain_converges.another_block)
  qed
qed

lemma chain_converge_loop:
  assumes "chain_converges env args crit app app'"
  shows "converge_loop env args crit app = Some (Inr app')"
  using assms
proof (induction rule: chain_converges.induct)
  case (converged app app' samples crit)
  then show ?case by (subst converge_loop.simps) simp
next
  case (another_block app app1 samples crit app')
  then show ?case by (subst converge_loop.simps) simp
qed

lemma converge_loop_iff:
  "converge_loop env args crit app = Some (Inr app') \<longleftrightarrow> chain_converges env args crit app app'"
proof
  assume "converge_loop env args crit app = Some (Inr app')"
  then show "chain_converges env args crit app app'" by (rule converge_loop_chain)
next
  assume "chain_converges env args crit app app'"
  then show "converge_loop env args crit app = Some (Inr app')" by (rule chain_converge_loop)
qed

lemma fitForGivenGroupCount_iff:
  "fitForGivenGroupCount env args k app = Some (Inr app') \<longleftrightarrow>
     fitted_to_convergence env args k app app'"
proof (cases "m_pGraph app")
  case None
  then show ?thesis by (simp add: fitForGivenGroupCount_def fitted_to_convergence_def)
next
  case (Some graph)
  define r where "r = randomize env (m_mcmc app) (new_model env graph k)"
  show ?thesis
  proof (cases "initMethod args = GREEDY")
    case True
    show ?thesis
    proof (cases "optimize (snd r)")
      case None
      with Some True show ?thesis
        by (simp add: fitForGivenGroupCount_def fitted_to_convergence_def Let_def r_def)
    next
      case (Some model)
      with \<open>m_pGraph app = Some graph\<close> True show ?thesis
        by (simp add: fitForGivenGroupCount_def fitted_to_convergence_def Let_def r_def
            converge_loop_iff)
    qed
  next
    case False
    with Some show ?thesis
      by (simp add: fitForGivenGroupCount_def fitted_to_convergence_def Let_def r_def
          converge_loop_iff)
  qed
qed

lemma fit_candidates_iff:
  "fit_candidates env args ks app = Some (Inr states) \<longleftrightarrow> fits_in_order env args ks app states"
proof (induction ks arbitrary: app states)
  case Nil
  show ?case by auto
next
  case (Cons k ks)
  show ?case
  proof (cases states)
    case Nil
    then show ?thesis by (auto split: option.splits sum.splits)
  next
    case (Cons a rest)
    have "fit_candidates env args (k # ks) app = Some (Inr (a # rest)) \<longleftrightarrow>
            fitForGivenGroupCount env args k app = Some (Inr a) \<and>
            fit_candidates env args ks a = Some (Inr rest)"
      by (auto split: option.splits sum.splits)
    then show ?thesis
      unfolding Cons using Cons.IH[of a rest] by (simp add: fitForGivenGroupCount_iff)
  qed
qed



lemma runBlock_loop_add:
  "runBlock_loop env args (j + k) s =
     (case runBlock_loop env args j s of Inl e \<Rightarrow> Inl e
      | Inr s' \<Rightarrow> runBlock_loop env args k s')"
proof (induction j arbitrary: s)
  case 0
  show ?case by simp
next
  case (Suc j)
  show ?case
  proof (cases "runBlock_body env args s")
    case (Inl e)
    then show ?thesis by simp
  next
    case (Inr s1)
    then show ?thesis by (simp add: Suc)
  qed
qed

lemma runBlock_body_mono:
  assumes "runBlock_body env args s = Inr s'"
  shows "m_bestLogL (fst s) \<le> m_bestLogL (fst s')"
proof -
  obtain app samples app' samples' where s: "s = (app, samples)" "s' = (app', samples')"
    by (cases s, cases s') auto
  from runBlock_body_best[OF assms[unfolded s]] show ?thesis
    by (auto simp: s split: if_splits)
qed

lemma runBlock_loop_mono:
  assumes "runBlock_loop env args n s = Inr s'"
  shows "m_bestLogL (fst s) \<le> m_bestLogL (fst s')"
  using assms
proof (induction n arbitrary: s)
  case 0
  then show ?case by simp
next
  case (Suc n)
  then obtain s1 where b: "runBlock_body env args s = Inr s1"
    and l: "runBlock_loop env args n s1 = Inr s'"
    by (auto split: sum.splits)
  from runBlock_body_mono[OF b] Suc.IH[OF l] show ?case by simp
qed

lemma ex7_moved_back: "setTypes ex7_moved ex7_types = ex7"
  by (simp add: ex7_moved_def setTypes_def ex7_def mk_model_def)

lemma ex7_moved_types: "getTypes ex7_moved = ex7_new_types" "ex7_new_types \<noteq> ex7_types"
  by (simp_all add: ex7_moved_def setTypes_def ex7_new_types_def ex7_types_def)

lemma ex7_moved_less: "getLogLikelihood ex7_moved < getLogLikelihood ex7"
  unfolding ex7_moved_def by (rule ex7_logL_less)

lemma demo_round1:
  "runBlock_body demo_env demo_args (demo_app, []) = Inr (demo_app1, [getLogLikelihood ex7])"
  using ex7_moved_less
  by (simp add: runBlock_body_def demo_env_def demo_args_def demo_app_def demo_app1_def
      Let_def ex7_moved_types ex7_moved_back)

lemma demo_round2:
  "runBlock_body demo_env demo_args (demo_app1, [getLogLikelihood ex7])
     = Inr (demo_app2, [getLogLikelihood ex7, getLogLikelihood ex7_moved])"
  using ex7_moved_less
  by (simp add: runBlock_body_def demo_env_def demo_args_def demo_app_def demo_app1_def
      demo_app2_def Let_def ex7_fields ex7_moved_def[symmetric])






text \<open>
  If the branch of \<open>run\<close> for an unspecified number of groups returns at all, every
  candidate from 2 to \<open>floor (sqrt vcount)\<close> has been fitted to convergence, in order.
\<close>

lemma run_sweep_fits_in_order:
  assumes "m_pGraph app = Some graph"
    and "run_sweep env args aic bic app = Some (Inr app')"
  shows "\<exists>states. fits_in_order env args
           [2..<Suc (nat \<lfloor>sqrt (real (vcount graph))\<rfloor>)] app states"
proof -
  let ?ks = "[2..<Suc (nat \<lfloor>sqrt (real (vcount graph))\<rfloor>)]"
  from assms(2) obtain states where "fit_candidates env args ?ks app = Some (Inr states)"
    unfolding run_sweep_def assms(1) option.case sweep_loop_fit_candidates
    by (auto split: option.splits sum.splits)
  then show ?thesis using fit_candidates_iff by blast
qed




text \<open>
  Claim C8. A sampling run is \<open>runBlock_loop\<close> from the state it starts in; by
  \<open>runBlock_loop_add\<close> it splits at any round. Take the state after any number of
  rounds, one more round, and any number of further rounds. The best log-likelihood
  never decreases along the way. In the round itself the best model becomes a copy of
  the live model, and the best log-likelihood that model's, exactly when the
  log-likelihood observed in the round is strictly above the best so far; otherwise
  both stay as they were.
\<close>

theorem runBlock_best_snapshot:
  assumes "runBlock_loop env args j start = Inr (app, samples)"
    and "runBlock_body env args (app, samples) = Inr (app', samples')"
    and "runBlock_loop env args k (app', samples') = Inr (app'', samples'')"
  shows "m_bestLogL (fst start) \<le> m_bestLogL app \<and>
         m_bestLogL app \<le> m_bestLogL app' \<and>
         m_bestLogL app' \<le> m_bestLogL app'' \<and>
         (\<exists>model'. m_pModel app' = Some model' \<and>
            samples' = samples @ [getLogLikelihood model'] \<and>
            (if m_bestLogL app < getLogLikelihood model'
             then m_bestModel app' = model' \<and> m_bestLogL app' = getLogLikelihood model'
             else m_bestModel app' = m_bestModel app \<and> m_bestLogL app' = m_bestLogL app))"
  using runBlock_loop_mono[OF assms(1)] runBlock_body_mono[OF assms(2)]
    runBlock_loop_mono[OF assms(3)] runBlock_body_best[OF assms(2)]
  by simp

theorem runBlock_best_snapshot_witness:
  "runBlock demo_env demo_args 2 demo_app
     = Inr (demo_app2, [getLogLikelihood ex7, getLogLikelihood ex7_moved]) \<and>
   m_bestLogL demo_app < getLogLikelihood ex7 \<and>
   m_bestModel demo_app1 = ex7 \<and> m_bestLogL demo_app1 = getLogLikelihood ex7 \<and>
   m_bestLogL demo_app \<le> m_bestLogL demo_app1 \<and> m_bestLogL demo_app1 \<le> m_bestLogL demo_app2"
proof -
  have h1: "runBlock_loop demo_env demo_args 0 (demo_app, []) = Inr (demo_app, [])" by simp
  have h3: "runBlock_loop demo_env demo_args 1 (demo_app1, [getLogLikelihood ex7])
              = Inr (demo_app2, [getLogLikelihood ex7, getLogLikelihood ex7_moved])"
    by (simp add: demo_round2)
  have r: "runBlock demo_env demo_args 2 demo_app
             = Inr (demo_app2, [getLogLikelihood ex7, getLogLikelihood ex7_moved])"
    by (simp add: runBlock_def numeral_2_eq_2 demo_round1 demo_round2)
  have b: "m_bestLogL demo_app < getLogLikelihood ex7"
    using ex7_moved_less by (simp add: demo_app_def)
  have d: "m_bestModel demo_app1 = ex7" "m_bestLogL demo_app1 = getLogLikelihood ex7"
    by (simp_all add: demo_app1_def)
  from runBlock_best_snapshot[OF h1 demo_round1 h3] r b d show ?thesis by auto
qed

text \<open>
  Claim C9. For a file name other than \<open>-\<close> that cannot be opened, \<open>loadGraph\<close> fails
  with the runtime error whose message is \<open>File not found: \<close> followed by the name,
  and \<open>run\<close> ends with this error whatever the fitting collaborators are: nothing is
  fitted. For the name \<open>-\<close> the graph is read from the standard input, and the result
  is never a runtime error of \<open>loadGraph\<close>.
\<close>

theorem loadGraph_file_not_found:
  assumes "filename \<noteq> ''-''" and "fs filename = None" and "inputFile args = filename"
  shows "loadGraph env fs stdin filename = Inl (RuntimeError (''File not found: '' @ filename)) \<and>
         run env aic bic fs stdin args app = Some (Inl (RuntimeError (''File not found: '' @ filename))) \<and>
         loadGraph env fs stdin ''-'' =
           (case read_edgelist env stdin of Inl msg \<Rightarrow> Inl (EdgelistError msg)
            | Inr graph \<Rightarrow> Inr graph) \<and>
         loadGraph env fs stdin ''-'' \<noteq> Inl (RuntimeError msg)"
proof -
  have l: "loadGraph env fs stdin (inputFile args)
             = Inl (RuntimeError (''File not found: '' @ filename))"
    using assms by (simp add: loadGraph_def)
  have r: "run env aic bic fs stdin args app
             = Some (Inl (RuntimeError (''File not found: '' @ filename)))"
    unfolding run_def Let_def l by simp
  have s: "loadGraph env fs stdin ''-'' =
             (case read_edgelist env stdin of Inl msg \<Rightarrow> Inl (EdgelistError msg)
              | Inr graph \<Rightarrow> Inr graph)"
    by (simp add: loadGraph_def)
  have n: "loadGraph env fs stdin ''-'' \<noteq> Inl (RuntimeError msg)"
    unfolding s by (simp split: sum.splits)
  from l r s n assms(3) show ?thesis by simp
qed

theorem loadGraph_file_not_found_witness:
  "run demo_env demo_aic demo_bic Map.empty ''0 1'' demo_args demo_app
     = Some (Inl (RuntimeError ''File not found: missing.txt'')) \<and>
   loadGraph demo_env Map.empty ''0 1'' ''-'' = Inr ex7_graph"
proof -
  have a: "''missing.txt'' \<noteq> ''-''" by simp
  have b: "(Map.empty :: string \<rightharpoonup> string) ''missing.txt'' = None" by simp
  have c: "inputFile demo_args = ''missing.txt''" by (simp add: demo_args_def)
  from loadGraph_file_not_found[OF a b c, of demo_env "''0 1''" demo_aic demo_bic demo_app]
  show ?thesis by (simp add: demo_env_def)
qed

end
